theory Spec2Isabelle
  imports Main "HOL-Library.Word" "HOL-Library.Sublist"
begin

section \<open>Errors\<close>

text \<open>
  Every exception the modelled code raises or lets through is a value of \<open>error\<close>; a call
  that may raise returns \<open>error + 'a\<close> with \<open>Inl\<close> for the exception.  The first six
  are the classes of \<^verbatim>\<open>common_neon/errors.py\<close> that \<^verbatim>\<open>neon_tx_sender.py\<close> names,
  \<open>InvalidParamError\<close> carries its message, the next five are Python built-ins, and
  \<open>OtherError\<close> stands for any other exception class.  The classes are taken to be
  unrelated by inheritance, so an \<^verbatim>\<open>except\<close> clause matches exactly its own constructor.
\<close>

datatype error =
    RescheduleError
  | WrongStrategyError
  | NonceTooHighError
  | NonceTooLowError string int int
  | BigTxError
  | NoMoreRetriesError
  | InvalidParamError string
  | AssertionError
  | ValueError
  | OverflowError
  | ZeroDivisionError
  | TypeError
  | OtherError string

section \<open>The strategy ladder (proxy/mempool/neon\_tx\_sender.py)\<close>

subsection \<open>Execution context, strategies and collaborators\<close>

text \<open>
  Modelled from the spec: \<^verbatim>\<open>NeonTxSendCtx\<close> (module \<^verbatim>\<open>neon_tx_sender_ctx\<close>) is not
  part of the sources at hand.  Following the data model of the specification, the
  context has an immutable part (\<open>tx_info\<close>: the sender address and nonce of
  \<^verbatim>\<open>neon_tx_info\<close>, \<^verbatim>\<open>is_stuck_tx()\<close>, \<^verbatim>\<open>config.retry_on_fail\<close>) and a mutable part
  (\<open>ctx\<close>: \<^verbatim>\<open>strategy_idx\<close>, \<^verbatim>\<open>state_tx_cnt\<close>, the flag behind
  \<^verbatim>\<open>has_completed_receipt()\<close>, the emulated result).  The field \<open>world\<close> holds
  everything outside the context that calls may change: the Chain, the emulator and the
  private state of the strategy objects.
\<close>

record tx_info =
  addr :: string
  nonce :: int
  is_stuck_tx :: bool
  retry_on_fail :: int

record ('w, 'e) ctx =
  strategy_idx :: nat
  state_tx_cnt :: int
  completed_receipt :: bool
  emulated_result :: "'e option"
  world :: 'w

text \<open>
  A strategy class (the classes of the \<^verbatim>\<open>neon_tx_send_*_strategy\<close> modules are not in
  the sources) is a record of its methods.  A strategy object keeps a reference to the
  context, so every method may read and change it; a method returns its outcome together
  with the context it leaves behind, also when it raises.
\<close>

type_synonym ('w, 'e, 'a) meth = "('w, 'e) ctx \<Rightarrow> (error + 'a) \<times> ('w, 'e) ctx"

record ('w, 'e, 'r) strategy =
  init :: "('w, 'e, unit) meth"
  validate :: "('w, 'e, bool) meth"
  complete_init :: "('w, 'e, unit) meth"
  prep_before_emulate :: "('w, 'e, bool) meth"
  update_after_emulate :: "('w, 'e, unit) meth"
  strategy_execute :: "('w, 'e, 'r) meth"
  has_completed_receipt :: "('w, 'e, bool) meth"
  cancel :: "('w, 'e, unit) meth"

text \<open>
  The collaborators that are not strategies: \<^verbatim>\<open>solana.get_state_tx_cnt(addr)\<close> and
  \<^verbatim>\<open>call_tx_emulated(config, neon_tx)\<close>.  Both act on the world only.
\<close>

record ('w, 'e) env =
  get_state_tx_cnt :: "string \<Rightarrow> 'w \<Rightarrow> (error + int) \<times> 'w"
  call_tx_emulated :: "'w \<Rightarrow> (error + 'e) \<times> 'w"

subsection \<open>The call log\<close>

text \<open>
  To state which calls a run makes, the model threads a log next to the context: every
  call of a strategy method or of a collaborator appends one event, with the index of
  the strategy in the ladder, the method and how the call ended.  The log is written by
  the ladder model only; strategies never see it.
\<close>

datatype method_name =
    M_init | M_validate | M_complete_init | M_prep_before_emulate
  | M_update_after_emulate | M_execute | M_has_completed_receipt | M_cancel

datatype outcome = Raised error | Returned | ReturnedBool bool

datatype event =
    StrategyCall nat method_name outcome
  | Solana_get_state_tx_cnt
  | Emulator_call_tx_emulated

type_synonym ('w, 'e) st = "('w, 'e) ctx \<times> event list"

definition call :: "nat \<Rightarrow> method_name \<Rightarrow> ('w, 'e, 'a) meth \<Rightarrow> ('w, 'e) st \<Rightarrow> (error + 'a) \<times> ('w, 'e) st" where
  "call idx m f s =
     (case f (fst s) of
        (Inl e, c') \<Rightarrow> (Inl e, (c', snd s @ [StrategyCall idx m (Raised e)]))
      | (Inr x, c') \<Rightarrow> (Inr x, (c', snd s @ [StrategyCall idx m Returned])))"

definition call_bool :: "nat \<Rightarrow> method_name \<Rightarrow> ('w, 'e, bool) meth \<Rightarrow> ('w, 'e) st \<Rightarrow> (error + bool) \<times> ('w, 'e) st" where
  "call_bool idx m f s =
     (case f (fst s) of
        (Inl e, c') \<Rightarrow> (Inl e, (c', snd s @ [StrategyCall idx m (Raised e)]))
      | (Inr b, c') \<Rightarrow> (Inr b, (c', snd s @ [StrategyCall idx m (ReturnedBool b)])))"

subsection \<open>NeonTxSendStrategyExecutor\<close>

text \<open>
  Private methods of the class start with an underscore in the source; here the
  underscore is written \<open>u_\<close>.
\<close>

definition u_init_state_tx_cnt :: "('w, 'e) env \<Rightarrow> tx_info \<Rightarrow> ('w, 'e) st \<Rightarrow> (error + unit) \<times> ('w, 'e) st" where
  "u_init_state_tx_cnt env ti s =
     (case get_state_tx_cnt env (addr ti) (world (fst s)) of
        (Inl e, w') \<Rightarrow> (Inl e, ((fst s)\<lparr>world := w'\<rparr>, snd s @ [Solana_get_state_tx_cnt]))
      | (Inr n, w') \<Rightarrow>
          (Inr (), ((fst s)\<lparr>world := w', state_tx_cnt := n\<rparr>, snd s @ [Solana_get_state_tx_cnt])))"

definition u_validate_nonce :: "('w, 'e) env \<Rightarrow> tx_info \<Rightarrow> ('w, 'e) st \<Rightarrow> (error + unit) \<times> ('w, 'e) st" where
  "u_validate_nonce env ti s =
     (case u_init_state_tx_cnt env ti s of
        (Inl e, s') \<Rightarrow> (Inl e, s')
      | (Inr _, s') \<Rightarrow>
          if state_tx_cnt (fst s') = nonce ti then (Inr (), s')
          else if state_tx_cnt (fst s') < nonce ti then (Inl NonceTooHighError, s')
          else (Inl (NonceTooLowError (addr ti) (nonce ti) (state_tx_cnt (fst s'))), s'))"

definition u_emulate_neon_tx :: "('w, 'e) env \<Rightarrow> tx_info \<Rightarrow> ('w, 'e) st \<Rightarrow> (error + unit) \<times> ('w, 'e) st" where
  "u_emulate_neon_tx env ti s =
     (if is_stuck_tx ti then (Inr (), s)
      else
        (case call_tx_emulated env (world (fst s)) of
           (Inl e, w') \<Rightarrow> (Inl e, ((fst s)\<lparr>world := w'\<rparr>, snd s @ [Emulator_call_tx_emulated]))
         | (Inr r, w') \<Rightarrow>
             u_validate_nonce env ti
               ((fst s)\<lparr>world := w', emulated_result := Some r\<rparr>,
                snd s @ [Emulator_call_tx_emulated])))"

text \<open>
  \<^verbatim>\<open>_cancel\<close>: a \<^verbatim>\<open>RescheduleError\<close> of \<^verbatim>\<open>strategy.cancel()\<close> is re-raised, any other
  exception is logged and swallowed.
\<close>

definition u_cancel :: "nat \<Rightarrow> ('w, 'e, 'r) strategy \<Rightarrow> ('w, 'e) st \<Rightarrow> (error + unit) \<times> ('w, 'e) st" where
  "u_cancel idx strat s =
     (case call idx M_cancel (cancel strat) s of
        (Inl e, s') \<Rightarrow> if e = RescheduleError then (Inl RescheduleError, s') else (Inr (), s')
      | (Inr _, s') \<Rightarrow> (Inr (), s'))"

text \<open>
  The \<^verbatim>\<open>try: return strategy.execute() finally: ...\<close> of \<^verbatim>\<open>_execute\<close>: the
  \<^verbatim>\<open>finally\<close> block runs however \<^verbatim>\<open>execute()\<close> ended, and an exception of its own
  replaces that outcome.
\<close>

definition execute_finally :: "nat \<Rightarrow> ('w, 'e, 'r) strategy \<Rightarrow> ('w, 'e) st \<Rightarrow> (error + 'r) \<times> ('w, 'e) st" where
  "execute_finally idx strat s =
     (case call idx M_execute (strategy_execute strat) s of
        (res, s1) \<Rightarrow>
          (case call_bool idx M_has_completed_receipt (has_completed_receipt strat) s1 of
             (Inl e, s2) \<Rightarrow> (Inl e, s2)
           | (Inr b, s2) \<Rightarrow>
               (res, (if b then (fst s2)\<lparr>completed_receipt := True\<rparr> else fst s2, snd s2))))"

text \<open>
  The body of one retry up to the decision on \<^verbatim>\<open>has_changes\<close>: the re-emulation (skipped
  once the receipt is completed) and \<^verbatim>\<open>update_after_emulate()\<close>, both only when the
  preparation changed something or on the first retry.
\<close>

definition emulate_and_update :: "('w, 'e) env \<Rightarrow> tx_info \<Rightarrow> nat \<Rightarrow> ('w, 'e, 'r) strategy \<Rightarrow> ('w, 'e) st \<Rightarrow> (error + unit) \<times> ('w, 'e) st" where
  "emulate_and_update env ti idx strat s =
     (case (if \<not> completed_receipt (fst s) then u_emulate_neon_tx env ti s else (Inr (), s)) of
        (Inl e, s1) \<Rightarrow> (Inl e, s1)
      | (Inr _, s1) \<Rightarrow> call idx M_update_after_emulate (update_after_emulate strat) s1)"

text \<open>
  The loop \<^verbatim>\<open>for retry in range(retry_on_fail)\<close> of \<^verbatim>\<open>_execute\<close>: \<open>retry\<close> is the loop
  variable and the fourth argument counts the iterations left.
\<close>

fun retry_loop :: "('w, 'e) env \<Rightarrow> tx_info \<Rightarrow> nat \<Rightarrow> ('w, 'e, 'r) strategy \<Rightarrow> nat \<Rightarrow> nat \<Rightarrow> ('w, 'e) st \<Rightarrow> (error + 'r) \<times> ('w, 'e) st" where
  "retry_loop env ti idx strat retry 0 s = (Inl NoMoreRetriesError, s)"
| "retry_loop env ti idx strat retry (Suc k) s =
     (case call_bool idx M_prep_before_emulate (prep_before_emulate strat) s of
        (Inl e, s1) \<Rightarrow> (Inl e, s1)
      | (Inr has_changes, s1) \<Rightarrow>
          (case (if has_changes \<or> retry = 0 then emulate_and_update env ti idx strat s1
                 else (Inr (), s1)) of
             (Inl e, s2) \<Rightarrow> (Inl e, s2)
           | (Inr _, s2) \<Rightarrow>
               if has_changes then retry_loop env ti idx strat (Suc retry) k s2
               else execute_finally idx strat s2))"

definition u_execute :: "('w, 'e) env \<Rightarrow> tx_info \<Rightarrow> nat \<Rightarrow> ('w, 'e, 'r) strategy \<Rightarrow> ('w, 'e) st \<Rightarrow> (error + 'r) \<times> ('w, 'e) st" where
  "u_execute env ti idx strat s =
     (case call idx M_complete_init (complete_init strat) s of
        (Inl e, s1) \<Rightarrow> (Inl e, s1)
      | (Inr _, s1) \<Rightarrow>
          retry_loop env ti idx strat 0 (nat (retry_on_fail ti))
            ((fst s1)\<lparr>strategy_idx := idx\<rparr>, snd s1))"

text \<open>
  One pass of the loop over the ladder in \<^verbatim>\<open>execute\<close> ends in \<^verbatim>\<open>continue\<close>, in
  \<^verbatim>\<open>return\<close> or in an exception.
\<close>

datatype 'r pass = Continue | Return 'r

text \<open>The \<^verbatim>\<open>try\<close> block: \<^verbatim>\<open>validate()\<close>, then \<^verbatim>\<open>_execute\<close>.\<close>

definition attempt :: "('w, 'e) env \<Rightarrow> tx_info \<Rightarrow> nat \<Rightarrow> ('w, 'e, 'r) strategy \<Rightarrow> ('w, 'e) st \<Rightarrow> (error + 'r pass) \<times> ('w, 'e) st" where
  "attempt env ti idx strat s =
     (case call_bool idx M_validate (validate strat) s of
        (Inl e, s1) \<Rightarrow> (Inl e, s1)
      | (Inr ok, s1) \<Rightarrow>
          if \<not> ok then (Inr Continue, s1)
          else
            (case u_execute env ti idx strat s1 of
               (Inl e, s2) \<Rightarrow> (Inl e, s2)
             | (Inr r, s2) \<Rightarrow> (Inr (Return r), s2)))"

text \<open>The \<^verbatim>\<open>except\<close> clauses, in the order of the source.\<close>

definition handlers :: "nat \<Rightarrow> ('w, 'e, 'r) strategy \<Rightarrow> (error + 'r pass) \<times> ('w, 'e) st \<Rightarrow> (error + 'r pass) \<times> ('w, 'e) st" where
  "handlers idx strat out =
     (case out of
        (Inr x, s) \<Rightarrow> (Inr x, s)
      | (Inl e, s) \<Rightarrow>
          if e = RescheduleError then (Inl e, s)
          else if e = WrongStrategyError then
            (if \<not> completed_receipt (fst s) then (Inr Continue, s)
             else
               (case u_cancel idx strat s of
                  (Inl e', s') \<Rightarrow> (Inl e', s')
                | (Inr _, s') \<Rightarrow> (Inl e, s')))
          else
            (case u_cancel idx strat s of
               (Inl e', s') \<Rightarrow> (Inl e', s')
             | (Inr _, s') \<Rightarrow> (Inl e, s')))"

text \<open>
  The whole \<^verbatim>\<open>try ... except ... finally\<close>: the \<^verbatim>\<open>finally\<close> block refreshes
  \<^verbatim>\<open>state_tx_cnt\<close> after every pass, and an exception of the refresh replaces the
  pending \<^verbatim>\<open>continue\<close>, \<^verbatim>\<open>return\<close> or exception.
\<close>

definition try_strategy :: "('w, 'e) env \<Rightarrow> tx_info \<Rightarrow> nat \<Rightarrow> ('w, 'e, 'r) strategy \<Rightarrow> ('w, 'e) st \<Rightarrow> (error + 'r pass) \<times> ('w, 'e) st" where
  "try_strategy env ti idx strat s =
     (case handlers idx strat (attempt env ti idx strat s) of
        (out, s2) \<Rightarrow>
          (case u_init_state_tx_cnt env ti s2 of
             (Inl e, s3) \<Rightarrow> (Inl e, s3)
           | (Inr _, s3) \<Rightarrow> (out, s3)))"

text \<open>
  \<^verbatim>\<open>for strategy_idx in range(start, end)\<close>: the list argument holds the strategy
  classes from \<open>idx\<close> on.  The strategy object is constructed before the \<^verbatim>\<open>try\<close>, so
  an exception of the constructor leaves the loop with no handler and no refresh.
\<close>

fun strategy_loop :: "('w, 'e) env \<Rightarrow> tx_info \<Rightarrow> nat \<Rightarrow> ('w, 'e, 'r) strategy list \<Rightarrow> ('w, 'e) st \<Rightarrow> (error + 'r) \<times> ('w, 'e) st" where
  "strategy_loop env ti idx [] s = (Inl BigTxError, s)"
| "strategy_loop env ti idx (strat # rest) s =
     (case call idx M_init (init strat) s of
        (Inl e, s0) \<Rightarrow> (Inl e, s0)
      | (Inr _, s0) \<Rightarrow>
          (case try_strategy env ti idx strat s0 of
             (Inl e, s1) \<Rightarrow> (Inl e, s1)
           | (Inr Continue, s1) \<Rightarrow> strategy_loop env ti (Suc idx) rest s1
           | (Inr (Return r), s1) \<Rightarrow> (Inr r, s1)))"

definition execute :: "('w, 'e) env \<Rightarrow> tx_info \<Rightarrow> ('w, 'e, 'r) strategy list \<Rightarrow> ('w, 'e) st \<Rightarrow> (error + 'r) \<times> ('w, 'e) st" where
  "execute env ti strategy_list s =
     (case (if \<not> completed_receipt (fst s) then u_validate_nonce env ti s else (Inr (), s)) of
        (Inl e, s1) \<Rightarrow> (Inl e, s1)
      | (Inr _, s1) \<Rightarrow>
          strategy_loop env ti (strategy_idx (fst s1))
            (drop (strategy_idx (fst s1)) strategy_list) s1)"

subsection \<open>Reading the call log\<close>

text \<open>The events a run appended to the log it started with.\<close>

definition new_events :: "event list \<Rightarrow> event list \<Rightarrow> event list" where
  "new_events before after = drop (length before) after"

definition is_call :: "nat \<Rightarrow> method_name \<Rightarrow> event \<Rightarrow> bool" where
  "is_call idx m ev = (case ev of StrategyCall i m' oc \<Rightarrow> i = idx \<and> m' = m | _ \<Rightarrow> False)"

definition prep_returned :: "nat \<Rightarrow> bool \<Rightarrow> event" where
  "prep_returned idx b = StrategyCall idx M_prep_before_emulate (ReturnedBool b)"

text \<open>
  What the log of \<open>k\<close> iterations of the retry loop satisfies: when
  \<^verbatim>\<open>prep_before_emulate()\<close> returned true \<open>k\<close> times, \<^verbatim>\<open>execute()\<close> was never called
  and the loop failed, with \<^verbatim>\<open>NoMoreRetriesError\<close> when the log is empty or ends in a
  completed \<^verbatim>\<open>update_after_emulate()\<close>; and a call of \<^verbatim>\<open>execute()\<close> follows a
  \<^verbatim>\<open>prep_before_emulate()\<close> that returned false, with no other preparation between.
\<close>

definition retry_loop_spec :: "nat \<Rightarrow> nat \<Rightarrow> (error + 'r) \<Rightarrow> event list \<Rightarrow> bool" where
  "retry_loop_spec idx k res evs =
     ((length (filter (\<lambda>e. e = prep_returned idx True) evs) = k \<longrightarrow>
         (\<forall>oc. StrategyCall idx M_execute oc \<notin> set evs)
       \<and> (\<exists>e. res = Inl e)
       \<and> (evs = [] \<or> last evs = StrategyCall idx M_update_after_emulate Returned
            \<longrightarrow> res = Inl NoMoreRetriesError))
    \<and> (\<forall>oc. StrategyCall idx M_execute oc \<in> set evs \<longrightarrow>
         (\<exists>a b c. evs = a @ [prep_returned idx False] @ b @ [StrategyCall idx M_execute oc] @ c
            \<and> (\<forall>e \<in> set b. \<not> is_call idx M_prep_before_emulate e))))"

text \<open>
  What the last iteration of a run of the retry loop is, when every preparation reported
  changes: the log splits at the last \<^verbatim>\<open>prep_before_emulate()\<close>, which returned true
  from a state \<open>s0\<close> whose log is the part before it, and the outcome of the loop is
  the exception the re-emulation or \<^verbatim>\<open>update_after_emulate()\<close> raised after it, or
  \<^verbatim>\<open>NoMoreRetriesError\<close> when they completed.
\<close>

definition last_iteration_spec :: "('w, 'e) env \<Rightarrow> tx_info \<Rightarrow> nat \<Rightarrow> ('w, 'e, 'r) strategy \<Rightarrow> ('w, 'e) st \<Rightarrow> (error + 'r) \<times> ('w, 'e) st \<Rightarrow> event list \<Rightarrow> bool" where
  "last_iteration_spec env ti idx strat s out evs =
     (\<exists>pre post s0 s'.
        evs = pre @ [prep_returned idx True] @ post
      \<and> (\<forall>e \<in> set post. \<not> is_call idx M_prep_before_emulate e)
      \<and> snd s0 = snd s @ pre
      \<and> call_bool idx M_prep_before_emulate (prep_before_emulate strat) s0 = (Inr True, s')
      \<and> out = (case emulate_and_update env ti idx strat s' of
                 (Inl e, s2) \<Rightarrow> (Inl e, s2)
               | (Inr u, s2) \<Rightarrow> (Inl NoMoreRetriesError, s2)))"

subsection \<open>Test doubles for concrete runs\<close>

text \<open>
  A Chain whose answers to \<^verbatim>\<open>get_state_tx_cnt\<close> are scripted (the world is the list of
  answers still to give; the RPC fails once the script is used up) with an emulator that
  always succeeds, and a strategy whose methods return fixed outcomes and leave the
  context alone.
\<close>

definition scripted_env :: "((error + int) list, unit) env" where
  "scripted_env =
     \<lparr>get_state_tx_cnt = (\<lambda>a w. case w of [] \<Rightarrow> (Inl (OtherError ''rpc''), []) | r # rs \<Rightarrow> (r, rs)),
      call_tx_emulated = (\<lambda>w. (Inr (), w))\<rparr>"

definition fixed_strategy :: "bool \<Rightarrow> (error + bool) \<Rightarrow> (error + nat) \<Rightarrow> bool \<Rightarrow> (error + unit) \<Rightarrow> ('w, 'e, nat) strategy" where
  "fixed_strategy ok prep ex done cn =
     \<lparr>init = (\<lambda>c. (Inr (), c)),
      validate = (\<lambda>c. (Inr ok, c)),
      complete_init = (\<lambda>c. (Inr (), c)),
      prep_before_emulate = (\<lambda>c. (prep, c)),
      update_after_emulate = (\<lambda>c. (Inr (), c)),
      strategy_execute = (\<lambda>c. (ex, c)),
      has_completed_receipt = (\<lambda>c. (Inr done, c)),
      cancel = (\<lambda>c. (cn, c))\<rparr>"

definition demo_tx :: "int \<Rightarrow> tx_info" where
  "demo_tx retries = \<lparr>addr = ''0xab'', nonce = 5, is_stuck_tx = False, retry_on_fail = retries\<rparr>"

definition fresh_ctx :: "'w \<Rightarrow> ('w, 'e) ctx" where
  "fresh_ctx w = \<lparr>strategy_idx = 0, state_tx_cnt = 0, completed_receipt = False,
     emulated_result = None, world = w\<rparr>"

section \<open>The Chain-instruction builder (proxy/common\_neon/neon\_instruction.py)\<close>

subsection \<open>Python bytes and integers\<close>

type_synonym byte = "8 word"

text \<open>\<^verbatim>\<open>int.from_bytes(bs, 'little')\<close>, unsigned.\<close>

fun from_bytes_le :: "byte list \<Rightarrow> int" where
  "from_bytes_le [] = 0"
| "from_bytes_le (b # bs) = uint b + 256 * from_bytes_le bs"

text \<open>
  \<^verbatim>\<open>n.to_bytes(len, 'little')\<close>, unsigned: \<^verbatim>\<open>OverflowError\<close> for a negative \<open>n\<close> and
  for one that does not fit in \<open>len\<close> bytes.
\<close>

fun le_bytes :: "nat \<Rightarrow> int \<Rightarrow> byte list" where
  "le_bytes 0 n = []"
| "le_bytes (Suc k) n = word_of_int (n mod 256) # le_bytes k (n div 256)"

definition to_bytes_le :: "int \<Rightarrow> nat \<Rightarrow> error + byte list" where
  "to_bytes_le n len = (if n < 0 \<or> 256 ^ len \<le> n then Inl OverflowError else Inr (le_bytes len n))"

text \<open>
  \<^verbatim>\<open>bytes.fromhex(s)\<close> as CPython 3.7 and later implement it: ASCII whitespace (the
  space and the codes 9 to 13) is skipped before each byte, a byte is two hexadecimal
  digits next to each other, and anything else, a code point beyond ASCII included, is a
  \<^verbatim>\<open>ValueError\<close>.
\<close>

definition hex_digit_value :: "char \<Rightarrow> nat option" where
  "hex_digit_value c =
     (let n = (of_char c :: nat) in
      if 48 \<le> n \<and> n \<le> 57 then Some (n - 48)
      else if 97 \<le> n \<and> n \<le> 102 then Some (n - 87)
      else if 65 \<le> n \<and> n \<le> 70 then Some (n - 55)
      else None)"

definition py_isspace :: "char \<Rightarrow> bool" where
  "py_isspace c = (let n = (of_char c :: nat) in n = 32 \<or> (9 \<le> n \<and> n \<le> 13))"

fun bytes_fromhex :: "string \<Rightarrow> error + byte list" where
  "bytes_fromhex [] = Inr []"
| "bytes_fromhex [c] = (if py_isspace c then Inr [] else Inl ValueError)"
| "bytes_fromhex (c # d # cs) =
     (if py_isspace c then bytes_fromhex (d # cs)
      else
        (case (hex_digit_value c, hex_digit_value d) of
           (Some h, Some l) \<Rightarrow>
             (case bytes_fromhex cs of
                Inl e \<Rightarrow> Inl e
              | Inr bs \<Rightarrow> Inr (word_of_nat (16 * h + l) # bs))
         | _ \<Rightarrow> Inl ValueError))"

text \<open>A bytes literal of ASCII characters, such as \<^verbatim>\<open>b'treasury_pool'\<close>.\<close>

definition ascii_bytes :: "string \<Rightarrow> byte list" where
  "ascii_bytes s = map (\<lambda>c. word_of_nat (of_char c)) s"

text \<open>\<^verbatim>\<open>b''.join(parts)\<close>: a part that is \<^verbatim>\<open>None\<close> is a \<^verbatim>\<open>TypeError\<close>.\<close>

fun join_bytes :: "byte list option list \<Rightarrow> error + byte list" where
  "join_bytes [] = Inr []"
| "join_bytes (None # ps) = Inl TypeError"
| "join_bytes (Some p # ps) =
     (case join_bytes ps of Inl e \<Rightarrow> Inl e | Inr bs \<Rightarrow> Inr (p @ bs))"

subsection \<open>Opcodes\<close>

datatype EvmIxCode =
    Unknown | CollectTreasure | TxExecFromData | TxExecFromAccount | TxStepFromData
  | TxStepFromAccount | TxStepFromAccountNoChainId | CancelWithHash | HolderCreate
  | HolderDelete | HolderWrite | DepositV03 | CreateAccountV03

fun EvmIxCode_value :: "EvmIxCode \<Rightarrow> int" where
  "EvmIxCode_value Unknown = -1"
| "EvmIxCode_value CollectTreasure = 0x1e"
| "EvmIxCode_value TxExecFromData = 0x1f"
| "EvmIxCode_value TxExecFromAccount = 0x2a"
| "EvmIxCode_value TxStepFromData = 0x20"
| "EvmIxCode_value TxStepFromAccount = 0x21"
| "EvmIxCode_value TxStepFromAccountNoChainId = 0x22"
| "EvmIxCode_value CancelWithHash = 0x23"
| "EvmIxCode_value HolderCreate = 0x24"
| "EvmIxCode_value HolderDelete = 0x25"
| "EvmIxCode_value HolderWrite = 0x26"
| "EvmIxCode_value DepositV03 = 0x27"
| "EvmIxCode_value CreateAccountV03 = 0x28"

subsection \<open>Instructions and the builder's state\<close>

text \<open>
  \<^verbatim>\<open>SolAccountMeta\<close> and \<^verbatim>\<open>SolTxIx\<close> (module \<^verbatim>\<open>solana_tx\<close>, not in the sources) are
  taken as plain records of the keyword arguments they are built from; \<open>'k\<close> is the type
  of public keys, and a key the builder has not been given yet is \<open>None\<close>.
\<close>

record 'k SolAccountMeta =
  pubkey :: "'k option"
  is_signer :: bool
  is_writable :: bool

record 'k SolTxIx =
  program_id :: 'k
  data :: "byte list"
  accounts :: "'k SolAccountMeta list"

record 'k NeonIxBuilder =
  evm_program_id :: 'k
  operator_account :: 'k
  operator_neon_address :: "'k option"
  neon_account_list :: "'k SolAccountMeta list"
  neon_tx_sig :: "byte list option"
  msg :: "byte list option"
  holder_msg :: "byte list option"
  treasury_pool_index_buf :: "byte list option"
  treasury_pool_address :: "'k option"
  holder :: "'k option"

text \<open>
  What the builder takes from outside the repository: \<^verbatim>\<open>ElfParams().treasury_pool_max\<close>,
  \<^verbatim>\<open>SolPubKey.find_program_address(seeds, program_id)\<close> (it returns the address and the
  bump seed), the system program's key, and the RLP encoding and the hexadecimal
  signature of a \<^verbatim>\<open>NeonTx\<close> (of type \<open>'t\<close>).
\<close>

record ('k, 't) chain_params =
  treasury_pool_max :: int
  find_program_address :: "byte list list \<Rightarrow> 'k \<Rightarrow> 'k \<times> nat"
  SYS_PROGRAM_ID :: 'k
  rlp_encode :: "'t \<Rightarrow> byte list"
  hex_tx_sig :: "'t \<Rightarrow> string"

definition new_builder :: "'k \<Rightarrow> 'k \<Rightarrow> 'k NeonIxBuilder" where
  "new_builder config_evm_program_id operator =
     \<lparr>evm_program_id = config_evm_program_id, operator_account = operator,
      operator_neon_address = None, neon_account_list = [], neon_tx_sig = None, msg = None,
      holder_msg = None, treasury_pool_index_buf = None, treasury_pool_address = None,
      holder = None\<rparr>"

text \<open>
  \<^verbatim>\<open>init_neon_tx_sig\<close>.  The assignments happen one by one, so an exception leaves the
  earlier ones in place; the model returns the exception alone, as no claim looks at a
  builder whose initialisation failed.  Python's \<^verbatim>\<open>%\<close> raises
  \<^verbatim>\<open>ZeroDivisionError\<close> for a zero modulus and rounds towards minus infinity, as
  \<open>mod\<close> on \<open>int\<close> does.
\<close>

definition init_neon_tx_sig :: "('k, 't) chain_params \<Rightarrow> 'k NeonIxBuilder \<Rightarrow> string \<Rightarrow> error + 'k NeonIxBuilder" where
  "init_neon_tx_sig p b sig_hex =
     (case bytes_fromhex (drop 2 sig_hex) of
        Inl e \<Rightarrow> Inl e
      | Inr sig \<Rightarrow>
          if treasury_pool_max p = 0 then Inl ZeroDivisionError
          else
            (let treasury_pool_index = from_bytes_le (take 4 sig) mod treasury_pool_max p in
             case to_bytes_le treasury_pool_index 4 of
               Inl e \<Rightarrow> Inl e
             | Inr buf \<Rightarrow>
                 Inr (b\<lparr>neon_tx_sig := Some sig,
                        treasury_pool_index_buf := Some buf,
                        treasury_pool_address :=
                          Some (fst (find_program_address p [ascii_bytes ''treasury_pool'', buf]
                                       (evm_program_id b)))\<rparr>)))"

definition init_neon_tx :: "('k, 't) chain_params \<Rightarrow> 'k NeonIxBuilder \<Rightarrow> 't \<Rightarrow> error + 'k NeonIxBuilder" where
  "init_neon_tx p b neon_tx =
     init_neon_tx_sig p (b\<lparr>msg := Some (rlp_encode p neon_tx), holder_msg := Some (rlp_encode p neon_tx)\<rparr>)
       (hex_tx_sig p neon_tx)"

definition init_neon_account_list :: "'k NeonIxBuilder \<Rightarrow> 'k SolAccountMeta list \<Rightarrow> 'k NeonIxBuilder" where
  "init_neon_account_list b l = b\<lparr>neon_account_list := l\<rparr>"

definition init_iterative :: "'k NeonIxBuilder \<Rightarrow> 'k \<Rightarrow> 'k NeonIxBuilder" where
  "init_iterative b h = b\<lparr>holder := Some h\<rparr>"

definition meta :: "'k option \<Rightarrow> bool \<Rightarrow> bool \<Rightarrow> 'k SolAccountMeta" where
  "meta k s w = \<lparr>pubkey = k, is_signer = s, is_writable = w\<rparr>"

text \<open>
  \<^verbatim>\<open>make_write_ix\<close>: the list handed to \<^verbatim>\<open>join\<close> is built first (the conversion of the
  offset may raise), then joined (a signature that is still \<^verbatim>\<open>None\<close> raises).
\<close>

definition make_write_ix :: "'k NeonIxBuilder \<Rightarrow> int \<Rightarrow> byte list \<Rightarrow> error + 'k SolTxIx" where
  "make_write_ix b offset chunk =
     (case to_bytes_le (EvmIxCode_value HolderWrite) 1 of
        Inl e \<Rightarrow> Inl e
      | Inr code \<Rightarrow>
          (case to_bytes_le offset 8 of
             Inl e \<Rightarrow> Inl e
           | Inr off \<Rightarrow>
               (case join_bytes [Some code, neon_tx_sig b, Some off, Some chunk] of
                  Inl e \<Rightarrow> Inl e
                | Inr ix_data \<Rightarrow>
                    Inr \<lparr>program_id = evm_program_id b, data = ix_data,
                         accounts =
                           [meta (holder b) False True,
                            meta (Some (operator_account b)) True False]\<rparr>)))"

definition u_make_holder_ix :: "('k, 't) chain_params \<Rightarrow> 'k NeonIxBuilder \<Rightarrow> byte list \<Rightarrow> 'k SolTxIx" where
  "u_make_holder_ix p b ix_data =
     \<lparr>program_id = evm_program_id b, data = ix_data,
      accounts =
        [meta (holder b) False True,
         meta (Some (operator_account b)) True True,
         meta (treasury_pool_address b) False True,
         meta (operator_neon_address b) False True,
         meta (Some (SYS_PROGRAM_ID p)) False False,
         meta (Some (evm_program_id b)) False False] @ neon_account_list b\<rparr>"

definition u_make_tx_step_ix :: "('k, 't) chain_params \<Rightarrow> 'k NeonIxBuilder \<Rightarrow> byte list \<Rightarrow> int \<Rightarrow> int \<Rightarrow> byte list option \<Rightarrow> error + 'k SolTxIx" where
  "u_make_tx_step_ix p b ix_id_byte neon_step_cnt index payload =
     (case to_bytes_le neon_step_cnt 4 of
        Inl e \<Rightarrow> Inl e
      | Inr cnt \<Rightarrow>
          (case to_bytes_le index 4 of
             Inl e \<Rightarrow> Inl e
           | Inr idx \<Rightarrow>
               (case join_bytes [Some ix_id_byte, treasury_pool_index_buf b, Some cnt, Some idx] of
                  Inl e \<Rightarrow> Inl e
                | Inr ix_data \<Rightarrow>
                    Inr (u_make_holder_ix p b
                           (case payload of None \<Rightarrow> ix_data | Some d \<Rightarrow> ix_data @ d)))))"

definition make_tx_step_from_data_ix :: "('k, 't) chain_params \<Rightarrow> 'k NeonIxBuilder \<Rightarrow> int \<Rightarrow> int \<Rightarrow> error + 'k SolTxIx" where
  "make_tx_step_from_data_ix p b step_cnt index =
     (case to_bytes_le (EvmIxCode_value TxStepFromData) 1 of
        Inl e \<Rightarrow> Inl e
      | Inr code \<Rightarrow> u_make_tx_step_ix p b code step_cnt index (msg b))"

definition make_tx_step_from_account_ix :: "('k, 't) chain_params \<Rightarrow> 'k NeonIxBuilder \<Rightarrow> int \<Rightarrow> int \<Rightarrow> error + 'k SolTxIx" where
  "make_tx_step_from_account_ix p b neon_step_cnt index =
     (case to_bytes_le (EvmIxCode_value TxStepFromAccount) 1 of
        Inl e \<Rightarrow> Inl e
      | Inr code \<Rightarrow> u_make_tx_step_ix p b code neon_step_cnt index None)"

definition make_tx_step_from_account_no_chainid_ix :: "('k, 't) chain_params \<Rightarrow> 'k NeonIxBuilder \<Rightarrow> int \<Rightarrow> int \<Rightarrow> error + 'k SolTxIx" where
  "make_tx_step_from_account_no_chainid_ix p b neon_step_cnt index =
     (case to_bytes_le (EvmIxCode_value TxStepFromAccountNoChainId) 1 of
        Inl e \<Rightarrow> Inl e
      | Inr code \<Rightarrow> u_make_tx_step_ix p b code neon_step_cnt index None)"

text \<open>The \<^verbatim>\<open>data\<close> of an instruction that was built, the exception otherwise.\<close>

definition ix_data_of :: "error + 'k SolTxIx \<Rightarrow> error + byte list" where
  "ix_data_of r = (case r of Inl e \<Rightarrow> Inl e | Inr ix \<Rightarrow> Inr (data ix))"

subsection \<open>A concrete builder\<close>

text \<open>
  Public keys are numbers here, the derivation of program addresses is a stand-in that
  sums the seeds' bytes, and a transaction is the pair of its RLP bytes and its
  hexadecimal signature.
\<close>

definition demo_params :: "(nat, byte list \<times> string) chain_params" where
  "demo_params =
     \<lparr>treasury_pool_max = 128,
      find_program_address = (\<lambda>seeds k. (k + sum_list (map unat (concat seeds)), 255)),
      SYS_PROGRAM_ID = 0,
      rlp_encode = fst,
      hex_tx_sig = snd\<rparr>"

definition demo_sig_hex :: string where
  "demo_sig_hex = ''0x01020304abababababababababababababababababababababababababababab''"

text \<open>
  The builder after \<^verbatim>\<open>init_neon_tx\<close> with a transaction whose RLP bytes are
  \<open>[1, 2, 3]\<close>, followed by \<^verbatim>\<open>init_iterative\<close> with the holder 11.
\<close>

definition demo_builder :: "nat NeonIxBuilder" where
  "demo_builder =
     (case init_neon_tx demo_params (new_builder 7 9) ([1, 2, 3], demo_sig_hex) of
        Inl e \<Rightarrow> new_builder 7 9
      | Inr b \<Rightarrow> init_iterative b 11)"

section \<open>The indexer's start slot (proxy/indexer/indexer\_base.py)\<close>

text \<open>
  \<^verbatim>\<open>int(s)\<close> as CPython parses a string in base 10: whitespace around the number is
  dropped, one sign may come first, and the digits that follow may be grouped by single
  underscores.  \<open>None\<close> stands for the \<^verbatim>\<open>ValueError\<close>.  A string is the list of its
  code points, each below 256; among these the whitespace \<^verbatim>\<open>int\<close> drops is the
  space, the codes 9 to 13, the next-line control 133 and the no-break space 160, and
  the decimal digits are 0 to 9.  The interpreter's limit on the number of digits is
  outside the model.
\<close>

definition py_int_isspace :: "char \<Rightarrow> bool" where
  "py_int_isspace c = (let n = (of_char c :: nat) in py_isspace c \<or> n = 133 \<or> n = 160)"

definition is_digit :: "char \<Rightarrow> bool" where
  "is_digit c = (let n = (of_char c :: nat) in 48 \<le> n \<and> n \<le> 57)"

text \<open>Digits and underscores: whether the last character read was a digit, then the rest.\<close>

fun digits_ok :: "bool \<Rightarrow> string \<Rightarrow> bool" where
  "digits_ok after_digit [] = after_digit"
| "digits_ok after_digit (c # cs) =
     (if is_digit c then digits_ok True cs
      else if c = CHR ''_'' \<and> after_digit then digits_ok False cs
      else False)"

fun digits_value :: "int \<Rightarrow> string \<Rightarrow> int" where
  "digits_value acc [] = acc"
| "digits_value acc (c # cs) =
     (if is_digit c then digits_value (10 * acc + (int (of_char c) - 48)) cs
      else digits_value acc cs)"

definition py_int :: "string \<Rightarrow> int option" where
  "py_int s =
     (let t = dropWhile py_int_isspace s;
          neg = (t \<noteq> [] \<and> hd t = CHR ''-'');
          u = (if t \<noteq> [] \<and> (hd t = CHR ''-'' \<or> hd t = CHR ''+'') then tl t else t);
          body = rev (dropWhile py_int_isspace (rev u))
      in if digits_ok False body
         then Some (if neg then - digits_value 0 body else digits_value 0 body)
         else None)"

text \<open>
  The two Chain queries of the constructor, \<^verbatim>\<open>get_block_slot(SolCommit.Finalized)\<close> and
  \<^verbatim>\<open>get_first_available_block()\<close>, with the outcome each has when the indexer
  starts, and \<^verbatim>\<open>config.start_slot\<close>.
\<close>

record indexer_env =
  get_block_slot_finalized :: "error + int"
  get_first_available_block :: "error + int"
  config_start_slot :: string

text \<open>
  \<^verbatim>\<open>_get_start_slot\<close>.  The argument is \<open>None\<close> when \<^verbatim>\<open>last_known_slot\<close> is not an
  \<^verbatim>\<open>int\<close>.
\<close>

definition u_get_start_slot :: "indexer_env \<Rightarrow> int option \<Rightarrow> error + int" where
  "u_get_start_slot env last_slot =
     (let last_known_slot = (case last_slot of None \<Rightarrow> 0 | Some n \<Rightarrow> n) in
      case get_block_slot_finalized env of
        Inl e \<Rightarrow> Inl e
      | Inr latest_slot \<Rightarrow>
          (let start_slot = config_start_slot env;
               start_int_slot =
                 (if start_slot \<noteq> ''CONTINUE'' \<and> start_slot \<noteq> ''LATEST'' then
                    (case py_int start_slot of
                       Some n \<Rightarrow> min n latest_slot
                     | None \<Rightarrow> 0)
                  else 0)
           in if start_slot = ''CONTINUE'' \<and> last_known_slot > 0 then Inr last_known_slot
              else if start_slot = ''CONTINUE'' \<or> start_slot = ''LATEST'' then Inr latest_slot
              else if start_int_slot < last_known_slot then Inr last_known_slot
              else Inr start_int_slot))"

text \<open>\<^verbatim>\<open>IndexerBase.__init__\<close>: the value it stores in \<^verbatim>\<open>_start_slot\<close>.\<close>

definition IndexerBase_init :: "indexer_env \<Rightarrow> int option \<Rightarrow> error + int" where
  "IndexerBase_init env last_slot =
     (case u_get_start_slot env last_slot of
        Inl e \<Rightarrow> Inl e
      | Inr start_slot \<Rightarrow>
          (case get_first_available_block env of
             Inl e \<Rightarrow> Inl e
           | Inr first_slot \<Rightarrow> Inr (max start_slot first_slot)))"

text \<open>
  The start slot as the specification words it, for a last parsed slot (0 when
  there is none), the finalized slot \<open>fin\<close> and the configured string.
\<close>

definition resolved_start_slot_spec :: "string \<Rightarrow> int \<Rightarrow> int \<Rightarrow> int option" where
  "resolved_start_slot_spec cfg fin last_parsed =
     (if cfg = ''LATEST'' then Some fin
      else if cfg = ''CONTINUE'' then Some (if last_parsed > 0 then last_parsed else fin)
      else (case py_int cfg of
              Some n \<Rightarrow> Some (max (min n fin) last_parsed)
            | None \<Rightarrow> None))"

section \<open>Address checksums (eth\_utils, outside the repository)\<close>

subsection \<open>Keccak-256\<close>

text \<open>
  \<^verbatim>\<open>_normalize_address\<close> returns what \<^verbatim>\<open>eth_utils.to_checksum_address\<close> returns.
  That function is part of a library, not of the repository; it is modelled here after
  EIP-55, which hashes the lower-case hexadecimal digits with Keccak-256.  The state of
  the permutation Keccak-f[1600] is a list of 25 lanes, lane \<open>(x, y)\<close> at index
  \<open>x + 5 * y\<close>; a lane is the list of its 64 bits, the least significant first.
\<close>

type_synonym lane = "bool list"

definition byte_bits :: "byte \<Rightarrow> bool list" where
  "byte_bits b =
     (let n = unat b in
      [odd n, odd (n div 2), odd (n div 4), odd (n div 8),
       odd (n div 16), odd (n div 32), odd (n div 64), odd (n div 128)])"

fun bits_value :: "bool list \<Rightarrow> nat" where
  "bits_value [] = 0"
| "bits_value (b # bs) = (if b then 1 else 0) + 2 * bits_value bs"

fun bits_bytes :: "bool list \<Rightarrow> byte list" where
  "bits_bytes (b0 # b1 # b2 # b3 # b4 # b5 # b6 # b7 # rest) =
     word_of_nat (bits_value [b0, b1, b2, b3, b4, b5, b6, b7]) # bits_bytes rest"
| "bits_bytes bs = []"

definition lane_of_bytes :: "byte list \<Rightarrow> lane" where
  "lane_of_bytes bs = concat (map byte_bits bs)"

definition zero_lane :: lane where
  "zero_lane = concat (map byte_bits [0, 0, 0, 0, 0, 0, 0, 0])"

text \<open>Rotation of a lane by \<open>r\<close> bits towards the more significant end.\<close>

definition rotl64 :: "nat \<Rightarrow> lane \<Rightarrow> lane" where
  "rotl64 r x = drop (64 - r) x @ take (64 - r) x"

definition xor_lane :: "lane \<Rightarrow> lane \<Rightarrow> lane" where
  "xor_lane a b = map (\<lambda>(x, y). x \<noteq> y) (zip a b)"

text \<open>\<open>a XOR (NOT b AND c)\<close>, bit by bit.\<close>

definition chi_lane :: "lane \<Rightarrow> lane \<Rightarrow> lane \<Rightarrow> lane" where
  "chi_lane a b c = map (\<lambda>(x, y, z). x \<noteq> (\<not> y \<and> z)) (zip a (zip b c))"

text \<open>The round constants, each as its 8 bytes in little-endian order.\<close>

definition round_constants :: "byte list list" where
  "round_constants =
     [[0x01, 0x00, 0x00, 0x00, 0x00, 0x00, 0x00, 0x00],
      [0x82, 0x80, 0x00, 0x00, 0x00, 0x00, 0x00, 0x00],
      [0x8A, 0x80, 0x00, 0x00, 0x00, 0x00, 0x00, 0x80],
      [0x00, 0x80, 0x00, 0x80, 0x00, 0x00, 0x00, 0x80],
      [0x8B, 0x80, 0x00, 0x00, 0x00, 0x00, 0x00, 0x00],
      [0x01, 0x00, 0x00, 0x80, 0x00, 0x00, 0x00, 0x00],
      [0x81, 0x80, 0x00, 0x80, 0x00, 0x00, 0x00, 0x80],
      [0x09, 0x80, 0x00, 0x00, 0x00, 0x00, 0x00, 0x80],
      [0x8A, 0x00, 0x00, 0x00, 0x00, 0x00, 0x00, 0x00],
      [0x88, 0x00, 0x00, 0x00, 0x00, 0x00, 0x00, 0x00],
      [0x09, 0x80, 0x00, 0x80, 0x00, 0x00, 0x00, 0x00],
      [0x0A, 0x00, 0x00, 0x80, 0x00, 0x00, 0x00, 0x00],
      [0x8B, 0x80, 0x00, 0x80, 0x00, 0x00, 0x00, 0x00],
      [0x8B, 0x00, 0x00, 0x00, 0x00, 0x00, 0x00, 0x80],
      [0x89, 0x80, 0x00, 0x00, 0x00, 0x00, 0x00, 0x80],
      [0x03, 0x80, 0x00, 0x00, 0x00, 0x00, 0x00, 0x80],
      [0x02, 0x80, 0x00, 0x00, 0x00, 0x00, 0x00, 0x80],
      [0x80, 0x00, 0x00, 0x00, 0x00, 0x00, 0x00, 0x80],
      [0x0A, 0x80, 0x00, 0x00, 0x00, 0x00, 0x00, 0x00],
      [0x0A, 0x00, 0x00, 0x80, 0x00, 0x00, 0x00, 0x80],
      [0x81, 0x80, 0x00, 0x80, 0x00, 0x00, 0x00, 0x80],
      [0x80, 0x80, 0x00, 0x00, 0x00, 0x00, 0x00, 0x80],
      [0x01, 0x00, 0x00, 0x80, 0x00, 0x00, 0x00, 0x00],
      [0x08, 0x80, 0x00, 0x80, 0x00, 0x00, 0x00, 0x80]]"

text \<open>For each lane of the result of the steps rho and pi: the lane it comes from and its rotation.\<close>

definition rho_pi_table :: "(nat \<times> nat) list" where
  "rho_pi_table =
     [(0, 0), (6, 44), (12, 43), (18, 21), (24, 14), (3, 28), (9, 20), (10, 3), (16, 45),
      (22, 61), (1, 1), (7, 6), (13, 25), (19, 8), (20, 18), (4, 27), (5, 36), (11, 10),
      (17, 15), (23, 56), (2, 62), (8, 55), (14, 39), (15, 41), (21, 2)]"

text \<open>
  The step theta: the parities of the five columns, then each lane is combined with the
  parity of the column before it and the rotated parity of the column after it.
\<close>

definition xor_lanes :: "lane list \<Rightarrow> lane list \<Rightarrow> lane list" where
  "xor_lanes xs ys = map (\<lambda>(a, b). xor_lane a b) (zip xs ys)"

definition theta_c :: "lane list \<Rightarrow> lane list" where
  "theta_c A =
     xor_lanes (take 5 A) (xor_lanes (take 5 (drop 5 A)) (xor_lanes (take 5 (drop 10 A))
       (xor_lanes (take 5 (drop 15 A)) (take 5 (drop 20 A)))))"

definition theta_d :: "lane list \<Rightarrow> lane list" where
  "theta_d C = xor_lanes (last C # butlast C) (map (rotl64 1) (tl C @ [hd C]))"

definition theta :: "lane list \<Rightarrow> lane list" where
  "theta A = (let D = theta_d (theta_c A) in xor_lanes A (D @ D @ D @ D @ D))"

definition rho_pi :: "lane list \<Rightarrow> lane list" where
  "rho_pi A = map (\<lambda>(src, r). rotl64 r (A ! src)) rho_pi_table"

text \<open>The step chi, on the five rows one after the other.\<close>

fun chi :: "lane list \<Rightarrow> lane list" where
  "chi (b0 # b1 # b2 # b3 # b4 # rest) =
     chi_lane b0 b1 b2 # chi_lane b1 b2 b3 # chi_lane b2 b3 b4
       # chi_lane b3 b4 b0 # chi_lane b4 b0 b1 # chi rest"
| "chi bs = []"

definition iota :: "byte list \<Rightarrow> lane list \<Rightarrow> lane list" where
  "iota rc A = (case A of [] \<Rightarrow> [] | a # rest \<Rightarrow> xor_lane a (lane_of_bytes rc) # rest)"

definition keccak_round :: "lane list \<Rightarrow> byte list \<Rightarrow> lane list" where
  "keccak_round A rc = iota rc (chi (rho_pi (theta A)))"

definition keccak_f :: "lane list \<Rightarrow> lane list" where
  "keccak_f A = foldl keccak_round A round_constants"

text \<open>Padding of Keccak (the pad byte 0x01, not SHA-3's 0x06) to blocks of 136 bytes.\<close>

definition keccak_pad :: "byte list \<Rightarrow> byte list" where
  "keccak_pad m =
     (let k = 136 - length m mod 136 in
      if k = 1 then m @ [0x81] else m @ [0x01] @ replicate (k - 2) 0 @ [0x80])"

fun lanes_of :: "byte list \<Rightarrow> lane list" where
  "lanes_of (b0 # b1 # b2 # b3 # b4 # b5 # b6 # b7 # rest) =
     lane_of_bytes [b0, b1, b2, b3, b4, b5, b6, b7] # lanes_of rest"
| "lanes_of bs = []"

definition absorb_block :: "lane list \<Rightarrow> byte list \<Rightarrow> lane list" where
  "absorb_block A block =
     keccak_f (xor_lanes A (lanes_of block @ [zero_lane, zero_lane, zero_lane, zero_lane,
                                               zero_lane, zero_lane, zero_lane, zero_lane]))"

fun absorb :: "nat \<Rightarrow> lane list \<Rightarrow> byte list \<Rightarrow> lane list" where
  "absorb 0 A bs = A"
| "absorb (Suc n) A bs = absorb n (absorb_block A (take 136 bs)) (drop 136 bs)"

definition keccak256 :: "byte list \<Rightarrow> byte list" where
  "keccak256 m =
     (let p = keccak_pad m;
          A = absorb (length p div 136) (replicate 25 zero_lane) p
      in concat (map bits_bytes (take 4 A)))"

subsection \<open>to\_checksum\_address\<close>

text \<open>
  A Python string is modelled as the list of its code points, each below 256; strings
  with a code point from 256 on are not values of the type.  \<^verbatim>\<open>str.lower()\<close> changes,
  among these code points, the letters A to Z and the Latin-1 capitals 192 to 222 other
  than the multiplication sign 215, each to the code point 32 above it.
\<close>

definition py_lower_char :: "char \<Rightarrow> char" where
  "py_lower_char c =
     (let n = (of_char c :: nat) in
      if (65 \<le> n \<and> n \<le> 90) \<or> (192 \<le> n \<and> n \<le> 222 \<and> n \<noteq> 215) then char_of (n + 32)
      else c)"

text \<open>
  \<^verbatim>\<open>c.upper()\<close> for a hexadecimal digit \<open>c\<close>, the only characters the checksum
  applies it to: the letters a to z go to the code point 32 below, the digits stay.
\<close>

definition py_upper_char :: "char \<Rightarrow> char" where
  "py_upper_char c =
     (let n = (of_char c :: nat) in if 97 \<le> n \<and> n \<le> 122 then char_of (n - 32) else c)"

text \<open>\<^verbatim>\<open>str.lower()\<close>.\<close>

definition py_lower :: "string \<Rightarrow> string" where
  "py_lower s = map py_lower_char s"

definition is_hex_digit :: "char \<Rightarrow> bool" where
  "is_hex_digit c = (hex_digit_value c \<noteq> None)"

definition remove_0x_prefix :: "string \<Rightarrow> string" where
  "remove_0x_prefix s = (if take 2 s = ''0x'' \<or> take 2 s = ''0X'' then drop 2 s else s)"

text \<open>The \<open>i\<close>-th hexadecimal digit of a byte string, the high half of a byte first.\<close>

definition nibble :: "byte list \<Rightarrow> nat \<Rightarrow> nat" where
  "nibble bs i = (if even i then unat (bs ! (i div 2)) div 16 else unat (bs ! (i div 2)) mod 16)"

definition checksum_encode :: "string \<Rightarrow> string" where
  "checksum_encode hex_addr =
     (let h = keccak256 (ascii_bytes hex_addr) in
      map (\<lambda>(i, c). if nibble h i > 7 then py_upper_char c else c)
        (zip [0..<length hex_addr] hex_addr))"

text \<open>
  \<^verbatim>\<open>to_checksum_address(value)\<close> for a \<^verbatim>\<open>str\<close>: the value must be hexadecimal digits
  after an optional \<^verbatim>\<open>0x\<close>, 40 of them; the result is \<^verbatim>\<open>0x\<close> and the lower-case
  digits, each letter in upper case where the matching digit of the hash is 8 or more.
\<close>

definition to_checksum_address :: "string \<Rightarrow> error + string" where
  "to_checksum_address v =
     (let digits = py_lower (remove_0x_prefix v) in
      if list_all is_hex_digit digits \<and> length digits = 40
      then Inr (''0x'' @ checksum_encode digits)
      else Inl ValueError)"

section \<open>The RPC worker (proxy/neon\_rpc\_api\_model/neon\_rpc\_api\_worker.py)\<close>

subsection \<open>Python strings\<close>

text \<open>
  \<^verbatim>\<open>str.strip()\<close> removes the characters for which \<^verbatim>\<open>str.isspace()\<close> holds: among
  the code points below 256 these are the space, the codes 9 to 13, the separators 28 to
  31, the next-line control 133 and the no-break space 160.
\<close>

definition py_str_isspace :: "char \<Rightarrow> bool" where
  "py_str_isspace c =
     (let n = (of_char c :: nat) in
      n = 32 \<or> (9 \<le> n \<and> n \<le> 13) \<or> (28 \<le> n \<and> n \<le> 31) \<or> n = 133 \<or> n = 160)"

definition py_strip :: "string \<Rightarrow> string" where
  "py_strip s = rev (dropWhile py_str_isspace (rev (dropWhile py_str_isspace s)))"

text \<open>\<^verbatim>\<open>hex(n)\<close>.\<close>

definition hex_char :: "nat \<Rightarrow> char" where
  "hex_char d = (if d < 10 then char_of (48 + d) else char_of (87 + d))"

fun hex_digits :: "nat \<Rightarrow> string" where
  "hex_digits n = (if n < 16 then [hex_char n] else hex_digits (n div 16) @ [hex_char (n mod 16)])"

declare hex_digits.simps [simp del]

definition py_hex :: "int \<Rightarrow> string" where
  "py_hex n = (if n < 0 then ''-0x'' @ hex_digits (nat (- n)) else ''0x'' @ hex_digits (nat n))"

text \<open>
  Whether \<^verbatim>\<open>int(s, 16)\<close> accepts a string: whitespace around the number is dropped,
  one sign may come first, then an optional \<^verbatim>\<open>0x\<close>, then hexadecimal digits that may
  be grouped by single underscores (one may follow the prefix).
\<close>

fun hex_digits_ok :: "bool \<Rightarrow> string \<Rightarrow> bool" where
  "hex_digits_ok after_digit [] = after_digit"
| "hex_digits_ok after_digit (c # cs) =
     (if hex_digit_value c \<noteq> None then hex_digits_ok True cs
      else if c = CHR ''_'' \<and> after_digit then hex_digits_ok False cs
      else False)"

definition py_int16_ok :: "string \<Rightarrow> bool" where
  "py_int16_ok s =
     (let t = dropWhile py_int_isspace s;
          u = (if t \<noteq> [] \<and> (hd t = CHR ''-'' \<or> hd t = CHR ''+'') then tl t else t);
          body = rev (dropWhile py_int_isspace (rev u))
      in if take 2 body = ''0x'' \<or> take 2 body = ''0X''
         then hex_digits_ok True (drop 2 body) \<and> drop 2 body \<noteq> [] \<and> drop 2 body \<noteq> ''_''
         else hex_digits_ok False body)"

subsection \<open>Normalisation of parameters\<close>

text \<open>
  \<^verbatim>\<open>_normalize_address\<close>.  Every exception inside the \<^verbatim>\<open>try\<close> block (a failed
  \<^verbatim>\<open>assert\<close>, the \<^verbatim>\<open>ValueError\<close> of \<^verbatim>\<open>bytes.fromhex\<close> or of
  \<^verbatim>\<open>to_checksum_address\<close>) becomes an \<^verbatim>\<open>InvalidParamError\<close> whose message names
  the kind of address and quotes the raw input.
\<close>

definition u_normalize_address :: "string \<Rightarrow> string \<Rightarrow> error + string" where
  "u_normalize_address raw_address address_type =
     (let address = py_lower (py_strip raw_address) in
      case (if take 2 address \<noteq> ''0x'' then Inl AssertionError
            else
              (case bytes_fromhex (drop 2 address) of
                 Inl e \<Rightarrow> Inl e
               | Inr bin_address \<Rightarrow>
                   if length bin_address \<noteq> 20 then Inl AssertionError
                   else to_checksum_address (drop 2 address))) of
        Inl e \<Rightarrow> Inl (InvalidParamError (''bad '' @ address_type @ '': '' @ raw_address))
      | Inr r \<Rightarrow> Inr r)"

text \<open>
  A block tag as \<^verbatim>\<open>eth_getTransactionCount\<close> declares it, \<^verbatim>\<open>Union[str, int]\<close>.
  \<^verbatim>\<open>_validate_block_tag\<close> also takes a \<^verbatim>\<open>dict\<close>; that branch asks the indexer
  database and is not reached for a tag of this type.  The result of
  \<^verbatim>\<open>tag.strip().lower()\<close> is dropped in the source, so the raw string is what is
  compared and parsed.
\<close>

datatype block_tag = TagInt int | TagStr string

definition u_validate_block_tag :: "block_tag \<Rightarrow> error + unit" where
  "u_validate_block_tag tag =
     (case tag of
        TagInt n \<Rightarrow> Inr ()
      | TagStr s \<Rightarrow>
          if s \<in> {''latest'', ''pending'', ''earliest'', ''finalized'', ''safe''} then Inr ()
          else if take 2 s = ''0x'' \<and> py_int16_ok (drop 2 s) then Inr ()
          else Inl (InvalidParamError (''invalid block tag '' @ s)))"

subsection \<open>eth\_getTransactionCount\<close>

datatype SolCommit = Processed | Confirmed | Finalized

text \<open>
  The queries of the method: the two mempool queries return an optional nonce, the Chain
  query the nonce at a commitment; each may raise.  The exceptions they raise are
  instances of \<^verbatim>\<open>Exception\<close>, which is what the handler of the method catches.
\<close>

record rpc_env =
  get_pending_tx_nonce :: "string \<Rightarrow> error + int option"
  get_mempool_tx_nonce :: "string \<Rightarrow> error + int option"
  solana_get_state_tx_cnt :: "string \<Rightarrow> SolCommit \<Rightarrow> error + int"

text \<open>The \<^verbatim>\<open>try\<close> block of the method.\<close>

definition tx_count_body :: "rpc_env \<Rightarrow> string \<Rightarrow> block_tag \<Rightarrow> error + string" where
  "tx_count_body env account tag =
     (case (if tag = TagStr ''pending'' then
              (case get_pending_tx_nonce env account of
                 Inl e \<Rightarrow> Inl e
               | Inr n \<Rightarrow> Inr (Processed, n))
            else if tag = TagStr ''latest'' then
              (case get_mempool_tx_nonce env account of
                 Inl e \<Rightarrow> Inl e
               | Inr n \<Rightarrow> Inr (Processed, n))
            else if tag = TagStr ''finalized'' \<or> tag = TagStr ''safe'' then Inr (Finalized, None)
            else Inr (Confirmed, None)) of
        Inl e \<Rightarrow> Inl e
      | Inr (commitment, pending) \<Rightarrow>
          (let pending_tx_nonce = (case pending of None \<Rightarrow> 0 | Some n \<Rightarrow> n) in
           case solana_get_state_tx_cnt env account commitment of
             Inl e \<Rightarrow> Inl e
           | Inr tx_cnt \<Rightarrow> Inr (py_hex (max tx_cnt pending_tx_nonce))))"

definition eth_getTransactionCount :: "rpc_env \<Rightarrow> string \<Rightarrow> block_tag \<Rightarrow> error + string" where
  "eth_getTransactionCount env account tag =
     (case u_validate_block_tag tag of
        Inl e \<Rightarrow> Inl e
      | Inr _ \<Rightarrow>
          (case u_normalize_address account ''address'' of
             Inl e \<Rightarrow> Inl e
           | Inr a \<Rightarrow>
               (case tx_count_body env (py_lower a) tag of
                  Inl e \<Rightarrow> Inr (py_hex 0)
                | Inr r \<Rightarrow> Inr r)))"

subsection \<open>A concrete address and concrete queries\<close>

definition demo_address :: string where
  "demo_address = ''0x5aaeb6053f3e94c9b9a09f33669435e7ef1beaed''"


definition failing_rpc :: rpc_env where
  "failing_rpc =
     \<lparr>get_pending_tx_nonce = (\<lambda>a. Inr (Some 9)),
      get_mempool_tx_nonce = (\<lambda>a. Inl (OtherError ''mempool'')),
      solana_get_state_tx_cnt = (\<lambda>a c. Inl (OtherError ''rpc''))\<rparr>"


section \<open>Properties of the strategy ladder\<close>

subsection \<open>Every step only appends to the call log\<close>

lemma call_log: "snd (snd (call idx m f s)) = snd s @ [StrategyCall idx m (case fst (f (fst s)) of Inl e \<Rightarrow> Raised e | Inr _ \<Rightarrow> Returned)]"
  by (auto simp: call_def split: prod.splits sum.splits)

lemma call_bool_log: "snd (snd (call_bool idx m f s)) = snd s @ [StrategyCall idx m (case fst (f (fst s)) of Inl e \<Rightarrow> Raised e | Inr b \<Rightarrow> ReturnedBool b)]"
  by (auto simp: call_bool_def split: prod.splits sum.splits)

lemma init_state_tx_cnt_log: "snd (snd (u_init_state_tx_cnt env ti s)) = snd s @ [Solana_get_state_tx_cnt]"
  by (auto simp: u_init_state_tx_cnt_def split: prod.splits sum.splits)

lemma validate_nonce_log: "snd (snd (u_validate_nonce env ti s)) = snd s @ [Solana_get_state_tx_cnt]"
  using init_state_tx_cnt_log [of env ti s]
  by (auto simp: u_validate_nonce_def split: prod.splits sum.splits)

lemma emulate_neon_tx_prefix: "prefix (snd s) (snd (snd (u_emulate_neon_tx env ti s)))"
  by (auto simp: u_emulate_neon_tx_def validate_nonce_log split: prod.splits sum.splits)

lemma cancel_log: "\<exists>oc. snd (snd (u_cancel idx strat s)) = snd s @ [StrategyCall idx M_cancel oc]"
  using call_log [of idx M_cancel "cancel strat" s]
  by (auto simp: u_cancel_def split: prod.splits sum.splits)

lemma execute_finally_prefix: "prefix (snd s) (snd (snd (execute_finally idx strat s)))"
proof -
  obtain res s1 where a: "call idx M_execute (strategy_execute strat) s = (res, s1)"
    by (cases "call idx M_execute (strategy_execute strat) s")
  obtain r2 s2 where b: "call_bool idx M_has_completed_receipt (has_completed_receipt strat) s1 = (r2, s2)"
    by (cases "call_bool idx M_has_completed_receipt (has_completed_receipt strat) s1")
  from a have "prefix (snd s) (snd s1)" using call_log [of idx M_execute "strategy_execute strat" s] by simp
  moreover from b have "prefix (snd s1) (snd s2)"
    using call_bool_log [of idx M_has_completed_receipt "has_completed_receipt strat" s1] by simp
  ultimately have "prefix (snd s) (snd s2)" by (rule prefix_order.trans)
  then show ?thesis using a b by (auto simp: execute_finally_def split: sum.splits)
qed

lemma emulate_and_update_prefix: "prefix (snd s) (snd (snd (emulate_and_update env ti idx strat s)))"
proof -
  obtain r s1 where Pair: "(if \<not> completed_receipt (fst s) then u_emulate_neon_tx env ti s else (Inr (), s)) = (r, s1)"
    by (cases "if \<not> completed_receipt (fst s) then u_emulate_neon_tx env ti s else (Inr (), s)")
  then have p: "prefix (snd s) (snd s1)"
    using emulate_neon_tx_prefix [of s env ti] by (auto split: if_splits)
  show ?thesis
  proof (cases r)
    case (Inl e)
    with Pair p show ?thesis by (simp add: emulate_and_update_def)
  next
    case (Inr u)
    have "prefix (snd s1) (snd (snd (call idx M_update_after_emulate (update_after_emulate strat) s1)))"
      by (simp add: call_log)
    with p have "prefix (snd s) (snd (snd (call idx M_update_after_emulate (update_after_emulate strat) s1)))"
      by (rule prefix_order.trans)
    with Pair Inr show ?thesis by (simp add: emulate_and_update_def)
  qed
qed

lemma retry_loop_prefix: "prefix (snd s) (snd (snd (retry_loop env ti idx strat retry k s)))"
proof (induction k arbitrary: retry s)
  case 0
  then show ?case by simp
next
  case (Suc k)
  obtain r1 s1 where a: "call_bool idx M_prep_before_emulate (prep_before_emulate strat) s = (r1, s1)"
    by (cases "call_bool idx M_prep_before_emulate (prep_before_emulate strat) s")
  then have p1: "prefix (snd s) (snd s1)"
    using call_bool_log [of idx M_prep_before_emulate "prep_before_emulate strat" s] by simp
  show ?case
  proof (cases r1)
    case (Inl e)
    with a p1 show ?thesis by simp
  next
    case (Inr hc)
    obtain r2 s2 where b: "(if hc \<or> retry = 0 then emulate_and_update env ti idx strat s1 else (Inr (), s1)) = (r2, s2)"
      by (cases "if hc \<or> retry = 0 then emulate_and_update env ti idx strat s1 else (Inr (), s1)")
    then have "prefix (snd s1) (snd s2)"
      using emulate_and_update_prefix [of s1 env ti idx strat] by (auto split: if_splits)
    with p1 have p2: "prefix (snd s) (snd s2)" by (rule prefix_order.trans)
    show ?thesis
    proof (cases r2)
      case (Inl e)
      with a Inr b p2 show ?thesis by simp
    next
      case r2: (Inr u)
      have "prefix (snd s2) (snd (snd (if hc then retry_loop env ti idx strat (Suc retry) k s2 else execute_finally idx strat s2)))"
        using Suc.IH [of s2 "Suc retry"] execute_finally_prefix [of s2 idx strat] by simp
      with p2 have "prefix (snd s) (snd (snd (if hc then retry_loop env ti idx strat (Suc retry) k s2 else execute_finally idx strat s2)))"
        by (rule prefix_order.trans)
      with a Inr b r2 show ?thesis by simp
    qed
  qed
qed


lemma u_execute_prefix: "prefix (snd s) (snd (snd (u_execute env ti idx strat s)))"
proof -
  obtain r1 s1 where a: "call idx M_complete_init (complete_init strat) s = (r1, s1)"
    by (cases "call idx M_complete_init (complete_init strat) s")
  then have p1: "prefix (snd s) (snd s1)"
    using call_log [of idx M_complete_init "complete_init strat" s] by simp
  show ?thesis
  proof (cases r1)
    case (Inl e)
    with a p1 show ?thesis by (simp add: u_execute_def)
  next
    case (Inr u)
    have "prefix (snd s1) (snd (snd (retry_loop env ti idx strat 0 (nat (retry_on_fail ti)) ((fst s1)\<lparr>strategy_idx := idx\<rparr>, snd s1))))"
      using retry_loop_prefix [of "((fst s1)\<lparr>strategy_idx := idx\<rparr>, snd s1)"] by simp
    with p1 have "prefix (snd s) (snd (snd (retry_loop env ti idx strat 0 (nat (retry_on_fail ti)) ((fst s1)\<lparr>strategy_idx := idx\<rparr>, snd s1))))"
      by (rule prefix_order.trans)
    with a Inr show ?thesis by (simp add: u_execute_def)
  qed
qed

lemma attempt_prefix: "prefix (snd s) (snd (snd (attempt env ti idx strat s)))"
proof -
  obtain r1 s1 where a: "call_bool idx M_validate (validate strat) s = (r1, s1)"
    by (cases "call_bool idx M_validate (validate strat) s")
  then have p1: "prefix (snd s) (snd s1)"
    using call_bool_log [of idx M_validate "validate strat" s] by simp
  have "prefix (snd s1) (snd (snd (u_execute env ti idx strat s1)))"
    by (rule u_execute_prefix)
  with p1 have "prefix (snd s) (snd (snd (u_execute env ti idx strat s1)))"
    by (rule prefix_order.trans)
  with a p1 show ?thesis
    by (auto simp: attempt_def split: sum.splits prod.splits)
qed

lemma handlers_prefix: "prefix (snd (snd out)) (snd (snd (handlers idx strat out)))"
proof -
  obtain r s where out: "out = (r, s)" by (cases out)
  have "prefix (snd s) (snd (snd (u_cancel idx strat s)))"
    using cancel_log [of idx strat s] by auto
  then show ?thesis
    by (auto simp: out handlers_def split: sum.splits prod.splits)
qed

lemma try_strategy_prefix: "prefix (snd s) (snd (snd (try_strategy env ti idx strat s)))"
proof -
  obtain out s2 where h: "handlers idx strat (attempt env ti idx strat s) = (out, s2)"
    by (cases "handlers idx strat (attempt env ti idx strat s)")
  have "prefix (snd s) (snd (snd (attempt env ti idx strat s)))" by (rule attempt_prefix)
  moreover have "prefix (snd (snd (attempt env ti idx strat s))) (snd s2)"
    using handlers_prefix [of "attempt env ti idx strat s" idx strat] h by simp
  ultimately have "prefix (snd s) (snd s2)" by (rule prefix_order.trans)
  moreover have "prefix (snd s2) (snd (snd (u_init_state_tx_cnt env ti s2)))"
    by (simp add: init_state_tx_cnt_log)
  ultimately have "prefix (snd s) (snd (snd (u_init_state_tx_cnt env ti s2)))"
    by (rule prefix_order.trans)
  then show ?thesis using h
    by (auto simp: try_strategy_def split: sum.splits prod.splits)
qed

lemma strategy_loop_prefix: "prefix (snd s) (snd (snd (strategy_loop env ti idx sl s)))"
proof (induction sl arbitrary: idx s)
  case Nil
  then show ?case by simp
next
  case (Cons strat rest)
  obtain r0 s0 where a: "call idx M_init (init strat) s = (r0, s0)"
    by (cases "call idx M_init (init strat) s")
  then have p0: "prefix (snd s) (snd s0)"
    using call_log [of idx M_init "init strat" s] by simp
  obtain r1 s1 where b: "try_strategy env ti idx strat s0 = (r1, s1)"
    by (cases "try_strategy env ti idx strat s0")
  then have "prefix (snd s0) (snd s1)"
    using try_strategy_prefix [of s0 env ti idx strat] by simp
  with p0 have p1: "prefix (snd s) (snd s1)" by (rule prefix_order.trans)
  have "prefix (snd s1) (snd (snd (strategy_loop env ti (Suc idx) rest s1)))"
    by (rule Cons.IH)
  with p1 have p2: "prefix (snd s) (snd (snd (strategy_loop env ti (Suc idx) rest s1)))"
    by (rule prefix_order.trans)
  from a b p0 p1 p2 show ?case
    by (auto split: sum.splits pass.splits)
qed

lemma strategy_loop_first:
  "take 1 (drop (length (snd s)) (snd (snd (strategy_loop env ti idx sl s)))) \<noteq> [Solana_get_state_tx_cnt]"
proof (cases sl)
  case Nil
  then show ?thesis by simp
next
  case (Cons strat rest)
  obtain r0 s0 where a: "call idx M_init (init strat) s = (r0, s0)"
    by (cases "call idx M_init (init strat) s")
  then obtain oc where s0: "snd s0 = snd s @ [StrategyCall idx M_init oc]"
    using call_log [of idx M_init "init strat" s] by simp
  have "prefix (snd s0) (snd (snd (strategy_loop env ti idx sl s)))"
  proof -
    obtain r1 s1 where b: "try_strategy env ti idx strat s0 = (r1, s1)"
      by (cases "try_strategy env ti idx strat s0")
    then have p1: "prefix (snd s0) (snd s1)"
      using try_strategy_prefix [of s0 env ti idx strat] by simp
    have "prefix (snd s1) (snd (snd (strategy_loop env ti (Suc idx) rest s1)))"
      by (rule strategy_loop_prefix)
    with p1 have "prefix (snd s0) (snd (snd (strategy_loop env ti (Suc idx) rest s1)))"
      by (rule prefix_order.trans)
    with a b p1 Cons show ?thesis
      by (auto split: sum.splits pass.splits)
  qed
  then obtain more where "snd (snd (strategy_loop env ti idx sl s)) = snd s @ StrategyCall idx M_init oc # more"
    using s0 by (auto simp: prefix_def)
  then show ?thesis by simp
qed

lemma emulate_and_update_events:
  "\<exists>evs. snd (snd (emulate_and_update env ti idx strat s)) = snd s @ evs \<and> evs \<noteq> []
     \<and> (\<forall>ev \<in> set evs. \<not> is_call idx M_prep_before_emulate ev \<and> \<not> is_call idx M_execute ev)
     \<and> ((\<exists>u. fst (emulate_and_update env ti idx strat s) = Inr u)
          = (last evs = StrategyCall idx M_update_after_emulate Returned))"
  by (auto simp: emulate_and_update_def u_emulate_neon_tx_def u_validate_nonce_def
      u_init_state_tx_cnt_def call_def is_call_def split: prod.splits sum.splits)

lemma execute_finally_events:
  "\<exists>oc oc'. snd (snd (execute_finally idx strat s)) =
      snd s @ [StrategyCall idx M_execute oc, StrategyCall idx M_has_completed_receipt oc']"
  by (auto simp: execute_finally_def call_def call_bool_def split: prod.splits sum.splits)


lemma no_prep_filter:
  "\<forall>ev \<in> set E. \<not> is_call idx M_prep_before_emulate ev \<Longrightarrow>
     filter (\<lambda>e. e = prep_returned idx b) E = []"
  by (induction E) (auto simp: is_call_def prep_returned_def)

lemma no_exec_mem:
  "\<forall>ev \<in> set E. \<not> is_call idx M_execute ev \<Longrightarrow> StrategyCall idx M_execute oc \<notin> set E"
  by (auto simp: is_call_def)

lemma call_bool_Inl:
  "call_bool idx m f s = (Inl e, s1) \<Longrightarrow> snd s1 = snd s @ [StrategyCall idx m (Raised e)]"
  by (auto simp: call_bool_def split: prod.splits sum.splits)

lemma call_bool_Inr:
  "call_bool idx m f s = (Inr b, s1) \<Longrightarrow> snd s1 = snd s @ [StrategyCall idx m (ReturnedBool b)]"
  by (auto simp: call_bool_def split: prod.splits sum.splits)

lemma retry_loop_events:
  "\<exists>evs. snd (snd (retry_loop env ti idx strat retry k s)) = snd s @ evs
     \<and> retry_loop_spec idx k (fst (retry_loop env ti idx strat retry k s)) evs"
proof (induction k arbitrary: retry s)
  case 0
  show ?case by (simp add: retry_loop_spec_def)
next
  case (Suc k)
  obtain r1 s1 where a: "call_bool idx M_prep_before_emulate (prep_before_emulate strat) s = (r1, s1)"
    by (cases "call_bool idx M_prep_before_emulate (prep_before_emulate strat) s")
  show ?case
  proof (cases r1)
    case (Inl e)
    from a Inl have l1: "snd s1 = snd s @ [StrategyCall idx M_prep_before_emulate (Raised e)]"
      using call_bool_Inl by blast
    have "retry_loop env ti idx strat retry (Suc k) s = (Inl e, s1)"
      using a Inl by simp
    moreover have "retry_loop_spec idx (Suc k) (Inl e) [StrategyCall idx M_prep_before_emulate (Raised e)]"
      by (simp add: retry_loop_spec_def prep_returned_def)
    ultimately show ?thesis using l1 by auto
  next
    case (Inr hc)
    from a Inr have l1: "snd s1 = snd s @ [prep_returned idx hc]"
      unfolding prep_returned_def using call_bool_Inr by blast
    obtain r2 s2 where b: "(if hc \<or> retry = 0 then emulate_and_update env ti idx strat s1 else (Inr (), s1)) = (r2, s2)"
      by (cases "if hc \<or> retry = 0 then emulate_and_update env ti idx strat s1 else (Inr (), s1)")
    have "\<exists>E. snd s2 = snd s1 @ E
            \<and> (\<forall>ev \<in> set E. \<not> is_call idx M_prep_before_emulate ev \<and> \<not> is_call idx M_execute ev)
            \<and> (hc \<longrightarrow> E \<noteq> [] \<and> ((\<exists>u. r2 = Inr u) = (last E = StrategyCall idx M_update_after_emulate Returned)))"
    proof (cases "hc \<or> retry = 0")
      case True
      with b have "emulate_and_update env ti idx strat s1 = (r2, s2)" by simp
      then show ?thesis using emulate_and_update_events [of env ti idx strat s1] by auto
    next
      case False
      with b show ?thesis by auto
    qed
    then obtain E where l2: "snd s2 = snd s1 @ E"
      and Eno: "\<forall>ev \<in> set E. \<not> is_call idx M_prep_before_emulate ev \<and> \<not> is_call idx M_execute ev"
      and Ehc: "hc \<longrightarrow> E \<noteq> [] \<and> ((\<exists>u. r2 = Inr u) = (last E = StrategyCall idx M_update_after_emulate Returned))"
      by blast
    have fE: "filter (\<lambda>e. e = prep_returned idx True) E = []"
      using Eno no_prep_filter [of E idx True] by blast
    have xE: "\<And>oc. StrategyCall idx M_execute oc \<notin> set E"
      using Eno no_exec_mem [of E idx] by blast
    have pne: "\<And>oc b. StrategyCall idx M_execute oc \<noteq> prep_returned idx b"
      by (simp add: prep_returned_def)
    show ?thesis
    proof (cases r2)
      case (Inl e)
      have res: "retry_loop env ti idx strat retry (Suc k) s = (Inl e, s2)"
        using a Inr b Inl by simp
      have "retry_loop_spec idx (Suc k) (Inl e) (prep_returned idx hc # E)"
      proof (cases hc)
        case True
        with Ehc Inl have "E \<noteq> []" "last E \<noteq> StrategyCall idx M_update_after_emulate Returned"
          by auto
        then show ?thesis using fE xE pne True
          by (auto simp: retry_loop_spec_def)
      next
        case False
        then show ?thesis using fE xE pne
          by (auto simp: retry_loop_spec_def prep_returned_def)
      qed
      then show ?thesis using res l1 l2 by auto
    next
      case r2: (Inr u)
      show ?thesis
      proof (cases hc)
        case True
        have res: "retry_loop env ti idx strat retry (Suc k) s = retry_loop env ti idx strat (Suc retry) k s2"
          using a Inr b r2 True by simp
        from Suc.IH [of "Suc retry" s2] obtain evs' where
          l3: "snd (snd (retry_loop env ti idx strat (Suc retry) k s2)) = snd s2 @ evs'"
          and sp: "retry_loop_spec idx k (fst (retry_loop env ti idx strat (Suc retry) k s2)) evs'"
          by blast
        from Ehc True r2 have Ene: "E \<noteq> []" and Elast: "last E = StrategyCall idx M_update_after_emulate Returned"
          by auto
        let ?res = "fst (retry_loop env ti idx strat (Suc retry) k s2)"
        have "retry_loop_spec idx (Suc k) ?res (prep_returned idx True # E @ evs')"
          unfolding retry_loop_spec_def
        proof (intro conjI impI allI)
          assume c: "length (filter (\<lambda>e. e = prep_returned idx True) (prep_returned idx True # E @ evs')) = Suc k"
          then have c': "length (filter (\<lambda>e. e = prep_returned idx True) evs') = k"
            using fE by simp
          with sp have n: "\<forall>oc. StrategyCall idx M_execute oc \<notin> set evs'" and er: "\<exists>e. ?res = Inl e"
            and nm: "evs' = [] \<or> last evs' = StrategyCall idx M_update_after_emulate Returned
                \<longrightarrow> ?res = Inl NoMoreRetriesError"
            by (auto simp: retry_loop_spec_def)
          fix oc
          show "StrategyCall idx M_execute oc \<notin> set (prep_returned idx True # E @ evs')"
            using n xE pne by auto
        next
          assume c: "length (filter (\<lambda>e. e = prep_returned idx True) (prep_returned idx True # E @ evs')) = Suc k"
          then have "length (filter (\<lambda>e. e = prep_returned idx True) evs') = k"
            using fE by simp
          with sp show "\<exists>e. ?res = Inl e" by (auto simp: retry_loop_spec_def)
        next
          assume c: "length (filter (\<lambda>e. e = prep_returned idx True) (prep_returned idx True # E @ evs')) = Suc k"
            and d: "prep_returned idx True # E @ evs' = [] \<or>
               last (prep_returned idx True # E @ evs') = StrategyCall idx M_update_after_emulate Returned"
          from c have "length (filter (\<lambda>e. e = prep_returned idx True) evs') = k"
            using fE by simp
          with sp have nm: "evs' = [] \<or> last evs' = StrategyCall idx M_update_after_emulate Returned
                \<longrightarrow> ?res = Inl NoMoreRetriesError"
            by (auto simp: retry_loop_spec_def)
          from d have "evs' = [] \<or> last evs' = StrategyCall idx M_update_after_emulate Returned"
            by (cases "evs' = []") auto
          with nm show "?res = Inl NoMoreRetriesError" by blast
        next
          fix oc
          assume m: "StrategyCall idx M_execute oc \<in> set (prep_returned idx True # E @ evs')"
          then have "StrategyCall idx M_execute oc \<in> set evs'"
            using xE pne by auto
          with sp obtain a b c where
            d: "evs' = a @ [prep_returned idx False] @ b @ [StrategyCall idx M_execute oc] @ c"
            and nb: "\<forall>e \<in> set b. \<not> is_call idx M_prep_before_emulate e"
            unfolding retry_loop_spec_def by blast
          have "prep_returned idx True # E @ evs' =
                 (prep_returned idx True # E @ a) @ [prep_returned idx False] @ b @ [StrategyCall idx M_execute oc] @ c"
            using d by simp
          with nb show "\<exists>a b c. prep_returned idx True # E @ evs' =
                 a @ [prep_returned idx False] @ b @ [StrategyCall idx M_execute oc] @ c
               \<and> (\<forall>e \<in> set b. \<not> is_call idx M_prep_before_emulate e)"
            by blast
        qed
        moreover have "snd (snd (retry_loop env ti idx strat retry (Suc k) s)) = snd s @ (prep_returned idx True # E @ evs')"
          using res l1 l2 l3 True by simp
        ultimately show ?thesis using res by auto
      next
        case False
        have res: "retry_loop env ti idx strat retry (Suc k) s = execute_finally idx strat s2"
          using a Inr b r2 False by simp
        from execute_finally_events [of idx strat s2] obtain oc oc' where
          l3: "snd (snd (execute_finally idx strat s2)) =
                 snd s2 @ [StrategyCall idx M_execute oc, StrategyCall idx M_has_completed_receipt oc']"
          by blast
        let ?evs = "prep_returned idx False # E @ [StrategyCall idx M_execute oc, StrategyCall idx M_has_completed_receipt oc']"
        have cnt: "filter (\<lambda>e. e = prep_returned idx True) ?evs = []"
          using fE by (simp add: prep_returned_def)
        have "retry_loop_spec idx (Suc k) (fst (execute_finally idx strat s2)) ?evs"
          unfolding retry_loop_spec_def
        proof (intro conjI impI allI)
          fix oc''
          assume m: "StrategyCall idx M_execute oc'' \<in> set ?evs"
          then have "oc'' = oc" using xE pne by auto
          then have "?evs = [] @ [prep_returned idx False] @ E @ [StrategyCall idx M_execute oc''] @ [StrategyCall idx M_has_completed_receipt oc']"
            by simp
          moreover have "\<forall>e \<in> set E. \<not> is_call idx M_prep_before_emulate e" using Eno by blast
          ultimately show "\<exists>a b c. ?evs = a @ [prep_returned idx False] @ b @ [StrategyCall idx M_execute oc''] @ c
               \<and> (\<forall>e \<in> set b. \<not> is_call idx M_prep_before_emulate e)"
            by blast
        qed (use cnt in simp_all)
        moreover have "snd (snd (retry_loop env ti idx strat retry (Suc k) s)) = snd s @ ?evs"
          using res l1 l2 l3 False by simp
        ultimately show ?thesis using res by auto
      qed
    qed
  qed
qed

lemma retry_loop_last_iteration:
  assumes "snd (snd (retry_loop env ti idx strat retry k s)) = snd s @ evs"
    and "length (filter (\<lambda>e. e = prep_returned idx True) evs) = k"
  shows "(k = 0 \<longrightarrow> retry_loop env ti idx strat retry k s = (Inl NoMoreRetriesError, s))
       \<and> (0 < k \<longrightarrow> last_iteration_spec env ti idx strat s (retry_loop env ti idx strat retry k s) evs)"
  using assms
proof (induction k arbitrary: retry s evs)
  case 0
  show ?case by simp
next
  case (Suc k)
  obtain r1 s1 where a: "call_bool idx M_prep_before_emulate (prep_before_emulate strat) s = (r1, s1)"
    by (cases "call_bool idx M_prep_before_emulate (prep_before_emulate strat) s")
  show ?case
  proof (cases r1)
    case (Inl e)
    from a Inl have "snd s1 = snd s @ [StrategyCall idx M_prep_before_emulate (Raised e)]"
      using call_bool_Inl by blast
    moreover have "retry_loop env ti idx strat retry (Suc k) s = (Inl e, s1)"
      using a Inl by simp
    ultimately have "evs = [StrategyCall idx M_prep_before_emulate (Raised e)]"
      using Suc.prems(1) by simp
    with Suc.prems(2) show ?thesis by (simp add: prep_returned_def)
  next
    case (Inr hc)
    from a Inr have l1: "snd s1 = snd s @ [prep_returned idx hc]"
      unfolding prep_returned_def using call_bool_Inr by blast
    obtain r2 s2 where b: "(if hc \<or> retry = 0 then emulate_and_update env ti idx strat s1 else (Inr (), s1)) = (r2, s2)"
      by (cases "if hc \<or> retry = 0 then emulate_and_update env ti idx strat s1 else (Inr (), s1)")
    have "\<exists>E. snd s2 = snd s1 @ E
            \<and> (\<forall>ev \<in> set E. \<not> is_call idx M_prep_before_emulate ev)"
    proof (cases "hc \<or> retry = 0")
      case True
      with b have "emulate_and_update env ti idx strat s1 = (r2, s2)" by simp
      then show ?thesis using emulate_and_update_events [of env ti idx strat s1] by auto
    next
      case False
      with b show ?thesis by auto
    qed
    then obtain E where l2: "snd s2 = snd s1 @ E"
      and Eno: "\<forall>ev \<in> set E. \<not> is_call idx M_prep_before_emulate ev"
      by blast
    have fE: "filter (\<lambda>e. e = prep_returned idx True) E = []"
      using Eno no_prep_filter [of E idx True] by blast
    show ?thesis
    proof (cases hc)
      case False
      have res: "retry_loop env ti idx strat retry (Suc k) s =
          (case r2 of Inl e \<Rightarrow> (Inl e, s2) | Inr u \<Rightarrow> execute_finally idx strat s2)"
        using a Inr b False by (simp split: sum.splits)
      from execute_finally_events [of idx strat s2] obtain oc oc' where
        l3: "snd (snd (execute_finally idx strat s2)) =
               snd s2 @ [StrategyCall idx M_execute oc, StrategyCall idx M_has_completed_receipt oc']"
        by blast
      have "evs = prep_returned idx False # E
          \<or> evs = prep_returned idx False # E @ [StrategyCall idx M_execute oc, StrategyCall idx M_has_completed_receipt oc']"
        using Suc.prems(1) res l1 l2 l3 False by (cases r2) auto
      then have "filter (\<lambda>e. e = prep_returned idx True) evs = []"
        using fE by (auto simp: prep_returned_def)
      with Suc.prems(2) show ?thesis by simp
    next
      case True
      from a Inr True have a': "call_bool idx M_prep_before_emulate (prep_before_emulate strat) s = (Inr True, s1)"
        by simp
      from b True have eu: "emulate_and_update env ti idx strat s1 = (r2, s2)" by simp
      show ?thesis
      proof (cases r2)
        case (Inl e)
        have res: "retry_loop env ti idx strat retry (Suc k) s = (Inl e, s2)"
          using a Inr b Inl by simp
        with Suc.prems(1) l1 l2 True have ev: "evs = [] @ [prep_returned idx True] @ E" by simp
        have "last_iteration_spec env ti idx strat s (Inl e, s2) evs"
          unfolding last_iteration_spec_def
          using ev Eno a' eu Inl by (intro exI [of _ "[]"] exI [of _ E] exI [of _ s] exI [of _ s1]) simp
        with res show ?thesis by simp
      next
        case r2: (Inr u)
        have res: "retry_loop env ti idx strat retry (Suc k) s = retry_loop env ti idx strat (Suc retry) k s2"
          using a Inr b r2 True by simp
        from retry_loop_prefix [of s2 env ti idx strat "Suc retry" k] obtain evs' where
          l3: "snd (snd (retry_loop env ti idx strat (Suc retry) k s2)) = snd s2 @ evs'"
          by (auto simp: prefix_def)
        with Suc.prems(1) res l1 l2 True have ev: "evs = prep_returned idx True # E @ evs'" by simp
        with Suc.prems(2) fE have cnt: "length (filter (\<lambda>e. e = prep_returned idx True) evs') = k"
          by simp
        note ih = Suc.IH [OF l3 cnt]
        show ?thesis
        proof (cases k)
          case 0
          with ih have r0: "retry_loop env ti idx strat (Suc retry) k s2 = (Inl NoMoreRetriesError, s2)"
            by simp
          with l3 have "evs' = []" by simp
          with ev have ev0: "evs = [] @ [prep_returned idx True] @ E" by simp
          have "last_iteration_spec env ti idx strat s (Inl NoMoreRetriesError, s2) evs"
            unfolding last_iteration_spec_def
            using ev0 Eno a' eu r2 by (intro exI [of _ "[]"] exI [of _ E] exI [of _ s] exI [of _ s1]) simp
          with res r0 show ?thesis by simp
        next
          case (Suc k')
          with ih have "last_iteration_spec env ti idx strat s2 (retry_loop env ti idx strat (Suc retry) k s2) evs'"
            by simp
          then obtain pre post s0 s' where
            d: "evs' = pre @ [prep_returned idx True] @ post"
            and np: "\<forall>e \<in> set post. \<not> is_call idx M_prep_before_emulate e"
            and l0: "snd s0 = snd s2 @ pre"
            and c0: "call_bool idx M_prep_before_emulate (prep_before_emulate strat) s0 = (Inr True, s')"
            and o: "retry_loop env ti idx strat (Suc retry) k s2 =
                 (case emulate_and_update env ti idx strat s' of
                    (Inl e, s2) \<Rightarrow> (Inl e, s2)
                  | (Inr u, s2) \<Rightarrow> (Inl NoMoreRetriesError, s2))"
            unfolding last_iteration_spec_def by blast
          have ev1: "evs = (prep_returned idx True # E @ pre) @ [prep_returned idx True] @ post"
            using ev d by simp
          have l0': "snd s0 = snd s @ (prep_returned idx True # E @ pre)"
            using l0 l1 l2 True by simp
          have "last_iteration_spec env ti idx strat s (retry_loop env ti idx strat (Suc retry) k s2) evs"
            unfolding last_iteration_spec_def
            using ev1 np l0' c0 o
            by (intro exI [of _ "prep_returned idx True # E @ pre"] exI [of _ post] exI [of _ s0] exI [of _ s']) simp
          with res show ?thesis by simp
        qed
      qed
    qed
  qed
qed

lemmas ladder_defs = execute_def try_strategy_def handlers_def attempt_def u_execute_def
  emulate_and_update_def execute_finally_def u_cancel_def u_emulate_neon_tx_def
  u_validate_nonce_def u_init_state_tx_cnt_def call_def call_bool_def
  scripted_env_def fixed_strategy_def demo_tx_def fresh_ctx_def

subsection \<open>The nonce precheck\<close>

text \<open>
  Claim C1.  \<^verbatim>\<open>execute\<close> performs the nonce precheck if and only if
  \<^verbatim>\<open>has_completed_receipt()\<close> is false: the first call a run logs is the refresh of
  \<^verbatim>\<open>state_tx_cnt\<close> exactly then, and with a completed receipt the run is the loop over
  the ladder from the unchanged context.  When the refresh returns \<open>n\<close>, the precheck
  stores \<open>n\<close> as \<^verbatim>\<open>state_tx_cnt\<close> and raises \<^verbatim>\<open>NonceTooLowError\<close> exactly when
  \<open>n\<close> is greater than the nonce of the transaction, \<^verbatim>\<open>NonceTooHighError\<close> exactly
  when it is less, and passes exactly when they are equal; \<^verbatim>\<open>execute\<close> then fails with
  that error or enters the loop over the ladder.
\<close>

theorem nonce_precheck:
  "((take 1 (new_events tr (snd (snd (execute env ti sl (c, tr))))) = [Solana_get_state_tx_cnt])
      = (\<not> completed_receipt c))
   \<and> (completed_receipt c \<longrightarrow>
        execute env ti sl (c, tr) =
          strategy_loop env ti (strategy_idx c) (drop (strategy_idx c) sl) (c, tr))
   \<and> (\<forall>n w'. get_state_tx_cnt env (addr ti) (world c) = (Inr n, w') \<longrightarrow>
        (let s1 = (c\<lparr>world := w', state_tx_cnt := n\<rparr>, tr @ [Solana_get_state_tx_cnt]) in
           u_validate_nonce env ti (c, tr) =
             (if n = nonce ti then Inr ()
              else if n < nonce ti then Inl NonceTooHighError
              else Inl (NonceTooLowError (addr ti) (nonce ti) n), s1)
         \<and> ((\<exists>a m k. fst (u_validate_nonce env ti (c, tr)) = Inl (NonceTooLowError a m k)) = (nonce ti < n))
         \<and> ((fst (u_validate_nonce env ti (c, tr)) = Inl NonceTooHighError) = (n < nonce ti))
         \<and> ((fst (u_validate_nonce env ti (c, tr)) = Inr ()) = (n = nonce ti))
         \<and> (\<not> completed_receipt c \<longrightarrow>
              execute env ti sl (c, tr) =
                (if n = nonce ti then
                   strategy_loop env ti (strategy_idx c) (drop (strategy_idx c) sl) s1
                 else if n < nonce ti then (Inl NonceTooHighError, s1)
                 else (Inl (NonceTooLowError (addr ti) (nonce ti) n), s1)))))"
proof (intro conjI allI impI)
  show "(take 1 (new_events tr (snd (snd (execute env ti sl (c, tr))))) = [Solana_get_state_tx_cnt])
      = (\<not> completed_receipt c)"
  proof (cases "completed_receipt c")
    case True
    then show ?thesis
      using strategy_loop_first [of "(c, tr)" env ti "strategy_idx c" "drop (strategy_idx c) sl"]
      by (simp add: execute_def new_events_def)
  next
    case False
    obtain r1 s1 where v: "u_validate_nonce env ti (c, tr) = (r1, s1)"
      by (cases "u_validate_nonce env ti (c, tr)")
    then have l1: "snd s1 = tr @ [Solana_get_state_tx_cnt]"
      using validate_nonce_log [of env ti "(c, tr)"] by simp
    have "prefix (snd s1) (snd (snd (execute env ti sl (c, tr))))"
      using False v strategy_loop_prefix [of s1 env ti "strategy_idx (fst s1)" "drop (strategy_idx (fst s1)) sl"]
      by (auto simp: execute_def split: sum.splits)
    then obtain more where "snd (snd (execute env ti sl (c, tr))) = tr @ Solana_get_state_tx_cnt # more"
      using l1 by (auto simp: prefix_def)
    with False show ?thesis by (simp add: new_events_def)
  qed
next
  assume "completed_receipt c"
  then show "execute env ti sl (c, tr) =
          strategy_loop env ti (strategy_idx c) (drop (strategy_idx c) sl) (c, tr)"
    by (simp add: execute_def)
next
  fix n w'
  assume g: "get_state_tx_cnt env (addr ti) (world c) = (Inr n, w')"
  then have v: "u_validate_nonce env ti (c, tr) =
             (if n = nonce ti then Inr ()
              else if n < nonce ti then Inl NonceTooHighError
              else Inl (NonceTooLowError (addr ti) (nonce ti) n),
              (c\<lparr>world := w', state_tx_cnt := n\<rparr>, tr @ [Solana_get_state_tx_cnt]))"
    by (simp add: u_validate_nonce_def u_init_state_tx_cnt_def)
  show "let s1 = (c\<lparr>world := w', state_tx_cnt := n\<rparr>, tr @ [Solana_get_state_tx_cnt]) in
           u_validate_nonce env ti (c, tr) =
             (if n = nonce ti then Inr ()
              else if n < nonce ti then Inl NonceTooHighError
              else Inl (NonceTooLowError (addr ti) (nonce ti) n), s1)
         \<and> ((\<exists>a m k. fst (u_validate_nonce env ti (c, tr)) = Inl (NonceTooLowError a m k)) = (nonce ti < n))
         \<and> ((fst (u_validate_nonce env ti (c, tr)) = Inl NonceTooHighError) = (n < nonce ti))
         \<and> ((fst (u_validate_nonce env ti (c, tr)) = Inr ()) = (n = nonce ti))
         \<and> (\<not> completed_receipt c \<longrightarrow>
              execute env ti sl (c, tr) =
                (if n = nonce ti then
                   strategy_loop env ti (strategy_idx c) (drop (strategy_idx c) sl) s1
                 else if n < nonce ti then (Inl NonceTooHighError, s1)
                 else (Inl (NonceTooLowError (addr ti) (nonce ti) n), s1)))"
    unfolding Let_def v by (auto simp: execute_def v)
qed

theorem nonce_precheck_witness:
  "get_state_tx_cnt scripted_env (addr (demo_tx 1)) (world (fresh_ctx [Inr 7] :: ((error + int) list, unit) ctx))
     = (Inr 7, [])
   \<and> \<not> completed_receipt (fresh_ctx [Inr 7] :: ((error + int) list, unit) ctx)
   \<and> execute scripted_env (demo_tx 1) ([] :: ((error + int) list, unit, nat) strategy list)
        (fresh_ctx [Inr 7], [])
      = (Inl (NonceTooLowError ''0xab'' 5 7),
         (\<lparr>strategy_idx = 0, state_tx_cnt = 7, completed_receipt = False,
           emulated_result = None, world = []\<rparr>,
          [Solana_get_state_tx_cnt]))"
proof -
  let ?c = "fresh_ctx [Inr 7] :: ((error + int) list, unit) ctx"
  have g: "get_state_tx_cnt scripted_env (addr (demo_tx 1)) (world ?c) = (Inr 7, [])"
    by (simp add: scripted_env_def fresh_ctx_def)
  have n: "\<not> completed_receipt ?c"
    by (simp add: fresh_ctx_def)
  note t = nonce_precheck [of "[]" scripted_env "demo_tx 1"
      "[] :: ((error + int) list, unit, nat) strategy list" ?c,
      THEN conjunct2, THEN conjunct2, rule_format, OF g]
  have "execute scripted_env (demo_tx 1) ([] :: ((error + int) list, unit, nat) strategy list) (?c, [])
      = (Inl (NonceTooLowError ''0xab'' 5 7),
         (?c\<lparr>world := [], state_tx_cnt := 7\<rparr>, [Solana_get_state_tx_cnt]))"
    using t n unfolding Let_def by (simp add: demo_tx_def)
  then show ?thesis using g n by (simp add: fresh_ctx_def)
qed

subsection \<open>WrongStrategy\<close>

text \<open>
  The claim C2 as the specification words it fails on two runs.  In the first the
  receipt is completed and \<^verbatim>\<open>cancel()\<close> raises \<^verbatim>\<open>RescheduleError\<close>, which
  \<^verbatim>\<open>_cancel\<close> re-raises: the caller sees \<^verbatim>\<open>RescheduleError\<close>, not
  \<^verbatim>\<open>WrongStrategyError\<close>.  In the second the receipt is not completed and the refresh
  of \<^verbatim>\<open>state_tx_cnt\<close> in the \<^verbatim>\<open>finally\<close> block fails: the ladder does not go on to
  the second strategy.
\<close>

theorem wrong_strategy_counterexample:
  "execute scripted_env (demo_tx 1)
     [fixed_strategy True (Inr False) (Inl WrongStrategyError) True (Inl RescheduleError)]
     (fresh_ctx [Inr 5, Inr 5, Inr 5], [])
   = (Inl RescheduleError,
      (\<lparr>strategy_idx = 0, state_tx_cnt = 5, completed_receipt = True,
        emulated_result = Some (), world = []\<rparr>,
       [Solana_get_state_tx_cnt,
        StrategyCall 0 M_init Returned,
        StrategyCall 0 M_validate (ReturnedBool True),
        StrategyCall 0 M_complete_init Returned,
        StrategyCall 0 M_prep_before_emulate (ReturnedBool False),
        Emulator_call_tx_emulated,
        Solana_get_state_tx_cnt,
        StrategyCall 0 M_update_after_emulate Returned,
        StrategyCall 0 M_execute (Raised WrongStrategyError),
        StrategyCall 0 M_has_completed_receipt (ReturnedBool True),
        StrategyCall 0 M_cancel (Raised RescheduleError),
        Solana_get_state_tx_cnt]))
  \<and> execute scripted_env (demo_tx 1)
     [fixed_strategy True (Inr False) (Inl WrongStrategyError) False (Inr ()),
      fixed_strategy True (Inr False) (Inr 7) True (Inr ())]
     (fresh_ctx [Inr 5, Inr 5], [])
   = (Inl (OtherError ''rpc''),
      (\<lparr>strategy_idx = 0, state_tx_cnt = 5, completed_receipt = False,
        emulated_result = Some (), world = []\<rparr>,
       [Solana_get_state_tx_cnt,
        StrategyCall 0 M_init Returned,
        StrategyCall 0 M_validate (ReturnedBool True),
        StrategyCall 0 M_complete_init Returned,
        StrategyCall 0 M_prep_before_emulate (ReturnedBool False),
        Emulator_call_tx_emulated,
        Solana_get_state_tx_cnt,
        StrategyCall 0 M_update_after_emulate Returned,
        StrategyCall 0 M_execute (Raised WrongStrategyError),
        StrategyCall 0 M_has_completed_receipt (ReturnedBool False),
        Solana_get_state_tx_cnt]))"
  by (simp add: ladder_defs)

text \<open>
  Claim C2, amended.  Let the attempt of the strategy at index \<open>idx\<close> (its
  \<^verbatim>\<open>validate()\<close> and \<^verbatim>\<open>_execute\<close>) raise \<^verbatim>\<open>WrongStrategyError\<close>.  If
  \<^verbatim>\<open>has_completed_receipt()\<close> is then false, \<^verbatim>\<open>cancel()\<close> is not called: the pass
  logs the refresh of \<^verbatim>\<open>state_tx_cnt\<close> only and, unless that refresh raises, the
  ladder goes on with index \<open>idx + 1\<close> on the same transaction.  If it is true,
  \<^verbatim>\<open>cancel()\<close> is called once, then the refresh, and unless the refresh raises the
  caller gets \<^verbatim>\<open>WrongStrategyError\<close>, or \<^verbatim>\<open>RescheduleError\<close> when \<^verbatim>\<open>cancel()\<close>
  raised that.  An exception of the refresh propagates in its place.
\<close>

theorem wrong_strategy_handling:
  assumes i: "call idx M_init (init strat) s0 = (Inr u, s)"
    and a: "attempt env ti idx strat s = (Inl WrongStrategyError, s1)"
    and c: "cancel strat (fst s1) = (rc, c2)"
  shows "(\<not> completed_receipt (fst s1) \<longrightarrow>
            strategy_loop env ti idx (strat # rest) s0 =
              (case u_init_state_tx_cnt env ti s1 of
                 (Inl e, s2) \<Rightarrow> (Inl e, s2)
               | (Inr _, s2) \<Rightarrow> strategy_loop env ti (Suc idx) rest s2)
          \<and> snd (snd (try_strategy env ti idx strat s)) = snd s1 @ [Solana_get_state_tx_cnt])
       \<and> (completed_receipt (fst s1) \<longrightarrow>
            strategy_loop env ti idx (strat # rest) s0 =
              (case u_init_state_tx_cnt env ti
                      (c2, snd s1 @ [StrategyCall idx M_cancel (case rc of Inl e \<Rightarrow> Raised e | Inr _ \<Rightarrow> Returned)]) of
                 (Inl e, s3) \<Rightarrow> (Inl e, s3)
               | (Inr _, s3) \<Rightarrow>
                   (Inl (if rc = Inl RescheduleError then RescheduleError else WrongStrategyError), s3))
          \<and> snd (snd (try_strategy env ti idx strat s)) =
              snd s1 @ [StrategyCall idx M_cancel (case rc of Inl e \<Rightarrow> Raised e | Inr _ \<Rightarrow> Returned),
                        Solana_get_state_tx_cnt])"
proof (intro conjI impI)
  assume n: "\<not> completed_receipt (fst s1)"
  then have h: "handlers idx strat (attempt env ti idx strat s) = (Inr Continue, s1)"
    using a by (simp add: handlers_def)
  then have t: "try_strategy env ti idx strat s =
      (case u_init_state_tx_cnt env ti s1 of (Inl e, s2) \<Rightarrow> (Inl e, s2) | (Inr _, s2) \<Rightarrow> (Inr Continue, s2))"
    by (simp add: try_strategy_def)
  show "strategy_loop env ti idx (strat # rest) s0 =
          (case u_init_state_tx_cnt env ti s1 of
             (Inl e, s2) \<Rightarrow> (Inl e, s2)
           | (Inr _, s2) \<Rightarrow> strategy_loop env ti (Suc idx) rest s2)"
    using i t by (auto split: prod.splits sum.splits)
  show "snd (snd (try_strategy env ti idx strat s)) = snd s1 @ [Solana_get_state_tx_cnt]"
    using t init_state_tx_cnt_log [of env ti s1] by (auto split: prod.splits sum.splits)
next
  assume y: "completed_receipt (fst s1)"
  let ?s2 = "(c2, snd s1 @ [StrategyCall idx M_cancel (case rc of Inl e \<Rightarrow> Raised e | Inr _ \<Rightarrow> Returned)])"
  have k: "u_cancel idx strat s1 = (if rc = Inl RescheduleError then Inl RescheduleError else Inr (), ?s2)"
    using c by (auto simp: u_cancel_def call_def split: sum.splits)
  have h: "handlers idx strat (attempt env ti idx strat s) =
      (Inl (if rc = Inl RescheduleError then RescheduleError else WrongStrategyError), ?s2)"
    using a y k by (simp add: handlers_def)
  then have t: "try_strategy env ti idx strat s =
      (case u_init_state_tx_cnt env ti ?s2 of
         (Inl e, s3) \<Rightarrow> (Inl e, s3)
       | (Inr _, s3) \<Rightarrow> (Inl (if rc = Inl RescheduleError then RescheduleError else WrongStrategyError), s3))"
    by (simp add: try_strategy_def)
  show "strategy_loop env ti idx (strat # rest) s0 =
          (case u_init_state_tx_cnt env ti ?s2 of
             (Inl e, s3) \<Rightarrow> (Inl e, s3)
           | (Inr _, s3) \<Rightarrow>
               (Inl (if rc = Inl RescheduleError then RescheduleError else WrongStrategyError), s3))"
    using i t by (auto split: prod.splits sum.splits)
  show "snd (snd (try_strategy env ti idx strat s)) =
          snd s1 @ [StrategyCall idx M_cancel (case rc of Inl e \<Rightarrow> Raised e | Inr _ \<Rightarrow> Returned),
                    Solana_get_state_tx_cnt]"
    using t init_state_tx_cnt_log [of env ti ?s2] by (auto split: prod.splits sum.splits)
qed

subsection \<open>Retries\<close>

text \<open>
  The claim C6 as the specification words it fails on this run: \<^verbatim>\<open>retry_on_fail\<close>
  is 1, \<^verbatim>\<open>prep_before_emulate()\<close> returns true on the one iteration, and the
  re-emulation that follows finds the sender's nonce moved from 5 to 6.  The ladder fails
  with \<^verbatim>\<open>NonceTooLowError\<close>, not with \<^verbatim>\<open>NoMoreRetriesError\<close>.
\<close>

theorem retries_exhausted_counterexample:
  "execute scripted_env (demo_tx 1)
     [fixed_strategy True (Inr True) (Inr 0) False (Inr ())]
     (fresh_ctx [Inr 5, Inr 6, Inr 6], [])
   = (Inl (NonceTooLowError ''0xab'' 5 6),
      (\<lparr>strategy_idx = 0, state_tx_cnt = 6, completed_receipt = False,
        emulated_result = Some (), world = []\<rparr>,
       [Solana_get_state_tx_cnt,
        StrategyCall 0 M_init Returned,
        StrategyCall 0 M_validate (ReturnedBool True),
        StrategyCall 0 M_complete_init Returned,
        StrategyCall 0 M_prep_before_emulate (ReturnedBool True),
        Emulator_call_tx_emulated,
        Solana_get_state_tx_cnt,
        StrategyCall 0 M_cancel Returned,
        Solana_get_state_tx_cnt]))"
  by (simp add: ladder_defs)

text \<open>
  Claim C6, amended.  After \<^verbatim>\<open>complete_init()\<close> returned, consider the calls
  \<^verbatim>\<open>_execute\<close> logs.  If \<^verbatim>\<open>prep_before_emulate()\<close> returned true as many times as
  \<^verbatim>\<open>retry_on_fail\<close> allows iterations, \<^verbatim>\<open>execute()\<close> of the strategy is never called
  and \<^verbatim>\<open>_execute\<close> fails; it fails with \<^verbatim>\<open>NoMoreRetriesError\<close> when the last
  iteration ran to the end (the log is empty or ends in a completed
  \<^verbatim>\<open>update_after_emulate()\<close>), and otherwise with the exception raised there: the
  outcome of \<^verbatim>\<open>_execute\<close> is the exception that the re-emulation, with its nonce check,
  or \<^verbatim>\<open>update_after_emulate()\<close> raised after the last preparation, and it is
  \<^verbatim>\<open>NoMoreRetriesError\<close> when neither raised.  Iteration by iteration: after a
  preparation that returned true, the loop fails with the exception of that step or goes
  on to the next iteration.  And whenever \<^verbatim>\<open>execute()\<close> is called, it follows a
  \<^verbatim>\<open>prep_before_emulate()\<close> that returned false, with no other preparation between
  the two.
\<close>

theorem prep_changes_exhaust_retries:
  assumes ci: "call idx M_complete_init (complete_init strat) s = (Inr u, s1)"
  shows "(length (filter (\<lambda>e. e = prep_returned idx True)
                   (new_events (snd s1) (snd (snd (u_execute env ti idx strat s)))))
            = nat (retry_on_fail ti) \<longrightarrow>
            (\<forall>oc. StrategyCall idx M_execute oc
                    \<notin> set (new_events (snd s1) (snd (snd (u_execute env ti idx strat s)))))
          \<and> (\<exists>e. fst (u_execute env ti idx strat s) = Inl e)
          \<and> (new_events (snd s1) (snd (snd (u_execute env ti idx strat s))) = []
              \<or> last (new_events (snd s1) (snd (snd (u_execute env ti idx strat s))))
                   = StrategyCall idx M_update_after_emulate Returned
              \<longrightarrow> fst (u_execute env ti idx strat s) = Inl NoMoreRetriesError))
       \<and> (\<forall>oc. StrategyCall idx M_execute oc
                  \<in> set (new_events (snd s1) (snd (snd (u_execute env ti idx strat s)))) \<longrightarrow>
            (\<exists>a b c. new_events (snd s1) (snd (snd (u_execute env ti idx strat s)))
                        = a @ [prep_returned idx False] @ b @ [StrategyCall idx M_execute oc] @ c
               \<and> (\<forall>e \<in> set b. \<not> is_call idx M_prep_before_emulate e)))
       \<and> (length (filter (\<lambda>e. e = prep_returned idx True)
                   (new_events (snd s1) (snd (snd (u_execute env ti idx strat s)))))
            = nat (retry_on_fail ti) \<longrightarrow>
            (nat (retry_on_fail ti) = 0 \<longrightarrow>
               u_execute env ti idx strat s =
                 (Inl NoMoreRetriesError, ((fst s1)\<lparr>strategy_idx := idx\<rparr>, snd s1)))
          \<and> (0 < nat (retry_on_fail ti) \<longrightarrow>
               (\<exists>pre post s0 s'.
                  new_events (snd s1) (snd (snd (u_execute env ti idx strat s)))
                    = pre @ [prep_returned idx True] @ post
                \<and> (\<forall>e \<in> set post. \<not> is_call idx M_prep_before_emulate e)
                \<and> snd s0 = snd s1 @ pre
                \<and> call_bool idx M_prep_before_emulate (prep_before_emulate strat) s0 = (Inr True, s')
                \<and> u_execute env ti idx strat s =
                    (case emulate_and_update env ti idx strat s' of
                       (Inl e, s2) \<Rightarrow> (Inl e, s2)
                     | (Inr u, s2) \<Rightarrow> (Inl NoMoreRetriesError, s2)))))
       \<and> (\<forall>retry k s0 s'.
            call_bool idx M_prep_before_emulate (prep_before_emulate strat) s0 = (Inr True, s') \<longrightarrow>
              retry_loop env ti idx strat retry (Suc k) s0 =
                (case emulate_and_update env ti idx strat s' of
                   (Inl e, s2) \<Rightarrow> (Inl e, s2)
                 | (Inr u, s2) \<Rightarrow> retry_loop env ti idx strat (Suc retry) k s2))
       \<and> u_execute env ti idx strat s =
            retry_loop env ti idx strat 0 (nat (retry_on_fail ti))
              ((fst s1)\<lparr>strategy_idx := idx\<rparr>, snd s1)"
proof -
  let ?s = "((fst s1)\<lparr>strategy_idx := idx\<rparr>, snd s1)"
  have ue: "u_execute env ti idx strat s = retry_loop env ti idx strat 0 (nat (retry_on_fail ti)) ?s"
    using ci by (simp add: u_execute_def)
  from retry_loop_events [of env ti idx strat 0 "nat (retry_on_fail ti)" ?s]
  obtain evs where l: "snd (snd (u_execute env ti idx strat s)) = snd s1 @ evs"
    and sp: "retry_loop_spec idx (nat (retry_on_fail ti)) (fst (u_execute env ti idx strat s)) evs"
    unfolding ue by auto
  have ne: "new_events (snd s1) (snd (snd (u_execute env ti idx strat s))) = evs"
    using l by (simp add: new_events_def)
  have l': "snd (snd (retry_loop env ti idx strat 0 (nat (retry_on_fail ti)) ?s)) = snd ?s @ evs"
    using l unfolding ue by simp
  have first: "(length (filter (\<lambda>e. e = prep_returned idx True) evs) = nat (retry_on_fail ti) \<longrightarrow>
            (\<forall>oc. StrategyCall idx M_execute oc \<notin> set evs)
          \<and> (\<exists>e. fst (u_execute env ti idx strat s) = Inl e)
          \<and> (evs = [] \<or> last evs = StrategyCall idx M_update_after_emulate Returned
              \<longrightarrow> fst (u_execute env ti idx strat s) = Inl NoMoreRetriesError))
       \<and> (\<forall>oc. StrategyCall idx M_execute oc \<in> set evs \<longrightarrow>
            (\<exists>a b c. evs = a @ [prep_returned idx False] @ b @ [StrategyCall idx M_execute oc] @ c
               \<and> (\<forall>e \<in> set b. \<not> is_call idx M_prep_before_emulate e)))"
    using sp unfolding retry_loop_spec_def by blast
  have third: "length (filter (\<lambda>e. e = prep_returned idx True) evs) = nat (retry_on_fail ti) \<longrightarrow>
            (nat (retry_on_fail ti) = 0 \<longrightarrow> u_execute env ti idx strat s = (Inl NoMoreRetriesError, ?s))
          \<and> (0 < nat (retry_on_fail ti) \<longrightarrow>
               (\<exists>pre post s0 s'.
                  evs = pre @ [prep_returned idx True] @ post
                \<and> (\<forall>e \<in> set post. \<not> is_call idx M_prep_before_emulate e)
                \<and> snd s0 = snd s1 @ pre
                \<and> call_bool idx M_prep_before_emulate (prep_before_emulate strat) s0 = (Inr True, s')
                \<and> u_execute env ti idx strat s =
                    (case emulate_and_update env ti idx strat s' of
                       (Inl e, s2) \<Rightarrow> (Inl e, s2)
                     | (Inr u, s2) \<Rightarrow> (Inl NoMoreRetriesError, s2))))"
  proof
    assume cnt: "length (filter (\<lambda>e. e = prep_returned idx True) evs) = nat (retry_on_fail ti)"
    from retry_loop_last_iteration [OF l' cnt]
    show "(nat (retry_on_fail ti) = 0 \<longrightarrow> u_execute env ti idx strat s = (Inl NoMoreRetriesError, ?s))
          \<and> (0 < nat (retry_on_fail ti) \<longrightarrow>
               (\<exists>pre post s0 s'.
                  evs = pre @ [prep_returned idx True] @ post
                \<and> (\<forall>e \<in> set post. \<not> is_call idx M_prep_before_emulate e)
                \<and> snd s0 = snd s1 @ pre
                \<and> call_bool idx M_prep_before_emulate (prep_before_emulate strat) s0 = (Inr True, s')
                \<and> u_execute env ti idx strat s =
                    (case emulate_and_update env ti idx strat s' of
                       (Inl e, s2) \<Rightarrow> (Inl e, s2)
                     | (Inr u, s2) \<Rightarrow> (Inl NoMoreRetriesError, s2))))"
      unfolding ue last_iteration_spec_def by simp
  qed
  have step: "retry_loop env ti idx strat retry (Suc k) s0 =
                (case emulate_and_update env ti idx strat s' of
                   (Inl e, s2) \<Rightarrow> (Inl e, s2)
                 | (Inr u, s2) \<Rightarrow> retry_loop env ti idx strat (Suc retry) k s2)"
    if "call_bool idx M_prep_before_emulate (prep_before_emulate strat) s0 = (Inr True, s')"
    for retry k s0 s'
    using that by (simp split: prod.splits sum.splits)
  show ?thesis
    unfolding ne using first third step ue by blast
qed

subsection \<open>Concrete runs of the two amended statements\<close>

theorem wrong_strategy_handling_witness:
  "call 0 M_init (init (fixed_strategy True (Inr False) (Inl WrongStrategyError) True (Inr ())))
       (fresh_ctx [Inr 5, Inr 5] :: ((error + int) list, unit) ctx, [])
     = (Inr (), (fresh_ctx [Inr 5, Inr 5], [StrategyCall 0 M_init Returned]))
   \<and> fst (attempt scripted_env (demo_tx 1) 0
            (fixed_strategy True (Inr False) (Inl WrongStrategyError) True (Inr ()))
            (fresh_ctx [Inr 5, Inr 5], [StrategyCall 0 M_init Returned]))
     = Inl WrongStrategyError
   \<and> strategy_loop scripted_env (demo_tx 1) 0
        [fixed_strategy True (Inr False) (Inl WrongStrategyError) True (Inr ())]
        (fresh_ctx [Inr 5, Inr 5], [])
     = (Inl WrongStrategyError,
        (\<lparr>strategy_idx = 0, state_tx_cnt = 5, completed_receipt = True,
          emulated_result = Some (), world = []\<rparr>,
         [StrategyCall 0 M_init Returned,
          StrategyCall 0 M_validate (ReturnedBool True),
          StrategyCall 0 M_complete_init Returned,
          StrategyCall 0 M_prep_before_emulate (ReturnedBool False),
          Emulator_call_tx_emulated, Solana_get_state_tx_cnt,
          StrategyCall 0 M_update_after_emulate Returned,
          StrategyCall 0 M_execute (Raised WrongStrategyError),
          StrategyCall 0 M_has_completed_receipt (ReturnedBool True),
          StrategyCall 0 M_cancel Returned, Solana_get_state_tx_cnt]))
   \<and> strategy_loop scripted_env (demo_tx 1) 0
        [fixed_strategy True (Inr False) (Inl WrongStrategyError) False (Inr ()),
         fixed_strategy False (Inr False) (Inr 0) False (Inr ())]
        (fresh_ctx [Inr 5, Inr 5, Inr 5], [])
     = strategy_loop scripted_env (demo_tx 1) 1
        [fixed_strategy False (Inr False) (Inr 0) False (Inr ())]
        (\<lparr>strategy_idx = 0, state_tx_cnt = 5, completed_receipt = False,
          emulated_result = Some (), world = [Inr 5]\<rparr>,
         [StrategyCall 0 M_init Returned,
          StrategyCall 0 M_validate (ReturnedBool True),
          StrategyCall 0 M_complete_init Returned,
          StrategyCall 0 M_prep_before_emulate (ReturnedBool False),
          Emulator_call_tx_emulated, Solana_get_state_tx_cnt,
          StrategyCall 0 M_update_after_emulate Returned,
          StrategyCall 0 M_execute (Raised WrongStrategyError),
          StrategyCall 0 M_has_completed_receipt (ReturnedBool False),
          Solana_get_state_tx_cnt])"
proof -
  let ?done = "fixed_strategy True (Inr False) (Inl WrongStrategyError) True (Inr ())
                 :: ((error + int) list, unit, nat) strategy"
  let ?open = "fixed_strategy True (Inr False) (Inl WrongStrategyError) False (Inr ())
                 :: ((error + int) list, unit, nat) strategy"
  let ?log = "[StrategyCall 0 M_init Returned,
          StrategyCall 0 M_validate (ReturnedBool True),
          StrategyCall 0 M_complete_init Returned,
          StrategyCall 0 M_prep_before_emulate (ReturnedBool False),
          Emulator_call_tx_emulated, Solana_get_state_tx_cnt,
          StrategyCall 0 M_update_after_emulate Returned,
          StrategyCall 0 M_execute (Raised WrongStrategyError)]"
  let ?c1 = "\<lparr>strategy_idx = 0, state_tx_cnt = 5, completed_receipt = True,
          emulated_result = Some (), world = [Inr 5]\<rparr> :: ((error + int) list, unit) ctx"
  let ?c2 = "\<lparr>strategy_idx = 0, state_tx_cnt = 5, completed_receipt = False,
          emulated_result = Some (), world = [Inr 5, Inr 5]\<rparr> :: ((error + int) list, unit) ctx"
  have i1: "call 0 M_init (init ?done) (fresh_ctx [Inr 5, Inr 5], [])
      = (Inr (), (fresh_ctx [Inr 5, Inr 5], [StrategyCall 0 M_init Returned]))"
    by (simp add: call_def fixed_strategy_def)
  have a1: "attempt scripted_env (demo_tx 1) 0 ?done (fresh_ctx [Inr 5, Inr 5], [StrategyCall 0 M_init Returned])
      = (Inl WrongStrategyError, (?c1, ?log @ [StrategyCall 0 M_has_completed_receipt (ReturnedBool True)]))"
    by (simp add: ladder_defs)
  have k1: "cancel ?done (fst (?c1, ?log @ [StrategyCall 0 M_has_completed_receipt (ReturnedBool True)]))
      = (Inr (), ?c1)"
    by (simp add: fixed_strategy_def)
  have i2: "call 0 M_init (init ?open) (fresh_ctx [Inr 5, Inr 5, Inr 5], [])
      = (Inr (), (fresh_ctx [Inr 5, Inr 5, Inr 5], [StrategyCall 0 M_init Returned]))"
    by (simp add: call_def fixed_strategy_def)
  have a2: "attempt scripted_env (demo_tx 1) 0 ?open (fresh_ctx [Inr 5, Inr 5, Inr 5], [StrategyCall 0 M_init Returned])
      = (Inl WrongStrategyError, (?c2, ?log @ [StrategyCall 0 M_has_completed_receipt (ReturnedBool False)]))"
    by (simp add: ladder_defs)
  have k2: "cancel ?open (fst (?c2, ?log @ [StrategyCall 0 M_has_completed_receipt (ReturnedBool False)]))
      = (Inr (), ?c2)"
    by (simp add: fixed_strategy_def)
  note t1 = wrong_strategy_handling [OF i1 a1 k1, of "[]"]
  note t2 = wrong_strategy_handling [OF i2 a2 k2, of "[fixed_strategy False (Inr False) (Inr 0) False (Inr ())]"]
  have r1: "strategy_loop scripted_env (demo_tx 1) 0 [?done] (fresh_ctx [Inr 5, Inr 5], [])
     = (Inl WrongStrategyError,
        (?c1\<lparr>world := []\<rparr>,
         ?log @ [StrategyCall 0 M_has_completed_receipt (ReturnedBool True),
                 StrategyCall 0 M_cancel Returned, Solana_get_state_tx_cnt]))"
    using t1 by (simp add: u_init_state_tx_cnt_def scripted_env_def)
  have r2: "strategy_loop scripted_env (demo_tx 1) 0
        [?open, fixed_strategy False (Inr False) (Inr 0) False (Inr ())]
        (fresh_ctx [Inr 5, Inr 5, Inr 5], [])
     = strategy_loop scripted_env (demo_tx 1) 1
        [fixed_strategy False (Inr False) (Inr 0) False (Inr ())]
        (?c2\<lparr>world := [Inr 5]\<rparr>,
         ?log @ [StrategyCall 0 M_has_completed_receipt (ReturnedBool False), Solana_get_state_tx_cnt])"
    using t2 by (simp add: u_init_state_tx_cnt_def scripted_env_def)
  show ?thesis
    using i1 a1 r1 r2 by simp
qed

theorem prep_changes_exhaust_retries_witness:
  "call 0 M_complete_init (complete_init (fixed_strategy True (Inr True) (Inr 0) False (Inr ())))
       (fresh_ctx [Inr 5, Inr 5] :: ((error + int) list, unit) ctx, [])
     = (Inr (), (fresh_ctx [Inr 5, Inr 5], [StrategyCall 0 M_complete_init Returned]))
   \<and> new_events [StrategyCall 0 M_complete_init Returned]
        (snd (snd (u_execute scripted_env (demo_tx 2) 0
           (fixed_strategy True (Inr True) (Inr 0) False (Inr ())) (fresh_ctx [Inr 5, Inr 5], []))))
     = [prep_returned 0 True, Emulator_call_tx_emulated, Solana_get_state_tx_cnt,
        StrategyCall 0 M_update_after_emulate Returned,
        prep_returned 0 True, Emulator_call_tx_emulated, Solana_get_state_tx_cnt,
        StrategyCall 0 M_update_after_emulate Returned]
   \<and> fst (u_execute scripted_env (demo_tx 2) 0
           (fixed_strategy True (Inr True) (Inr 0) False (Inr ())) (fresh_ctx [Inr 5, Inr 5], []))
     = Inl NoMoreRetriesError
   \<and> u_execute scripted_env (demo_tx 1) 0
        (fixed_strategy True (Inr True) (Inr 0) False (Inr ())) (fresh_ctx [Inr 6], [])
     = (Inl (NonceTooLowError ''0xab'' 5 6),
        (\<lparr>strategy_idx = 0, state_tx_cnt = 6, completed_receipt = False,
          emulated_result = Some (), world = []\<rparr>,
         [StrategyCall 0 M_complete_init Returned, prep_returned 0 True,
          Emulator_call_tx_emulated, Solana_get_state_tx_cnt]))"
proof -
  let ?strat = "fixed_strategy True (Inr True) (Inr 0) False (Inr ())
                 :: ((error + int) list, unit, nat) strategy"
  let ?s = "(fresh_ctx [Inr 5, Inr 5], []) :: ((error + int) list, unit) st"
  have ci: "call 0 M_complete_init (complete_init ?strat) ?s
      = (Inr (), (fresh_ctx [Inr 5, Inr 5], [StrategyCall 0 M_complete_init Returned]))"
    by (simp add: call_def fixed_strategy_def)
  have ev: "new_events [StrategyCall 0 M_complete_init Returned]
        (snd (snd (u_execute scripted_env (demo_tx 2) 0 ?strat ?s)))
     = [prep_returned 0 True, Emulator_call_tx_emulated, Solana_get_state_tx_cnt,
        StrategyCall 0 M_update_after_emulate Returned,
        prep_returned 0 True, Emulator_call_tx_emulated, Solana_get_state_tx_cnt,
        StrategyCall 0 M_update_after_emulate Returned]"
    by (simp add: ladder_defs new_events_def prep_returned_def numeral_2_eq_2)
  have rt: "nat (retry_on_fail (demo_tx 2)) = 2"
    by (simp add: demo_tx_def)
  note t = prep_changes_exhaust_retries [OF ci, of scripted_env "demo_tx 2", THEN conjunct1]
  have r1: "fst (u_execute scripted_env (demo_tx 2) 0 ?strat ?s) = Inl NoMoreRetriesError"
    using t unfolding rt by (simp add: ev prep_returned_def)
  let ?s6 = "(fresh_ctx [Inr 6], []) :: ((error + int) list, unit) st"
  let ?c6 = "\<lparr>strategy_idx = 0, state_tx_cnt = 0, completed_receipt = False,
          emulated_result = None, world = [Inr 6]\<rparr> :: ((error + int) list, unit) ctx"
  have ci6: "call 0 M_complete_init (complete_init ?strat) ?s6
      = (Inr (), (fresh_ctx [Inr 6], [StrategyCall 0 M_complete_init Returned]))"
    by (simp add: call_def fixed_strategy_def)
  note t6 = prep_changes_exhaust_retries [OF ci6, of scripted_env "demo_tx 1"]
  have pb: "call_bool 0 M_prep_before_emulate (prep_before_emulate ?strat)
        (?c6, [StrategyCall 0 M_complete_init Returned])
      = (Inr True, (?c6, [StrategyCall 0 M_complete_init Returned, prep_returned 0 True]))"
    by (simp add: call_bool_def fixed_strategy_def prep_returned_def)
  have eu: "emulate_and_update scripted_env (demo_tx 1) 0 ?strat
        (?c6, [StrategyCall 0 M_complete_init Returned, prep_returned 0 True])
      = (Inl (NonceTooLowError ''0xab'' 5 6),
         (\<lparr>strategy_idx = 0, state_tx_cnt = 6, completed_receipt = False,
           emulated_result = Some (), world = []\<rparr>,
          [StrategyCall 0 M_complete_init Returned, prep_returned 0 True,
           Emulator_call_tx_emulated, Solana_get_state_tx_cnt]))"
    by (simp add: ladder_defs)
  have st: "retry_loop scripted_env (demo_tx 1) 0 ?strat 0 (Suc 0)
        (?c6, [StrategyCall 0 M_complete_init Returned])
      = (case emulate_and_update scripted_env (demo_tx 1) 0 ?strat
                (?c6, [StrategyCall 0 M_complete_init Returned, prep_returned 0 True]) of
           (Inl e, s2) \<Rightarrow> (Inl e, s2)
         | (Inr u, s2) \<Rightarrow> retry_loop scripted_env (demo_tx 1) 0 ?strat (Suc 0) 0 s2)"
    using t6 [THEN conjunct2, THEN conjunct2, THEN conjunct2, THEN conjunct1, rule_format, OF pb] .
  have ue: "u_execute scripted_env (demo_tx 1) 0 ?strat ?s6
      = retry_loop scripted_env (demo_tx 1) 0 ?strat 0 (Suc 0)
          (?c6, [StrategyCall 0 M_complete_init Returned])"
    using t6 [THEN conjunct2, THEN conjunct2, THEN conjunct2, THEN conjunct2]
    by (simp add: demo_tx_def fresh_ctx_def)
  have r2: "u_execute scripted_env (demo_tx 1) 0 ?strat ?s6
     = (Inl (NonceTooLowError ''0xab'' 5 6),
        (\<lparr>strategy_idx = 0, state_tx_cnt = 6, completed_receipt = False,
          emulated_result = Some (), world = []\<rparr>,
         [StrategyCall 0 M_complete_init Returned, prep_returned 0 True,
          Emulator_call_tx_emulated, Solana_get_state_tx_cnt]))"
    unfolding ue st eu by simp
  from ci ev r1 r2 show ?thesis by simp
qed


section \<open>Properties of the instruction builder\<close>

subsection \<open>Little-endian bytes\<close>

lemma from_bytes_le_nonneg: "0 \<le> from_bytes_le bs"
  by (induction bs) auto

lemma from_bytes_le_bound: "from_bytes_le bs < 256 ^ length bs"
proof (induction bs)
  case Nil
  then show ?case by simp
next
  case (Cons b bs)
  have "uint b < 256" using uint_bounded [of b] by simp
  moreover from Cons have "from_bytes_le bs + 1 \<le> 256 ^ length bs" by simp
  then have "256 * (from_bytes_le bs + 1) \<le> 256 * 256 ^ length bs"
    by (rule mult_left_mono) simp
  ultimately show ?case by simp
qed

lemma length_le_bytes: "length (le_bytes k n) = k"
  by (induction k arbitrary: n) auto

lemma from_bytes_le_le_bytes: "from_bytes_le (le_bytes k n) = n mod 256 ^ k"
proof (induction k arbitrary: n)
  case 0
  then show ?case by simp
next
  case (Suc k)
  have u: "uint (word_of_int (n mod 256) :: byte) = n mod 256"
    by (simp add: uint_word_of_int)
  have "n mod 256 + 256 * (n div 256 mod 256 ^ k) = n mod (256 * 256 ^ k)"
    using zmod_zmult2_eq [of "256 ^ k" n 256] by simp
  then show ?case using Suc [of "n div 256"] u by simp
qed

lemma to_bytes_le_in_range:
  "0 \<le> n \<Longrightarrow> n < 256 ^ len \<Longrightarrow>
     to_bytes_le n len = Inr (le_bytes len n) \<and> length (le_bytes len n) = len
       \<and> from_bytes_le (le_bytes len n) = n"
  by (simp add: to_bytes_le_def length_le_bytes from_bytes_le_le_bytes)

lemma opcode_bytes:
  "to_bytes_le 0x26 (Suc 0) = Inr [0x26]"
  "to_bytes_le 0x20 (Suc 0) = Inr [0x20]"
  "to_bytes_le 0x21 (Suc 0) = Inr [0x21]"
  "to_bytes_le 0x22 (Suc 0) = Inr [0x22]"
  by (simp_all add: to_bytes_le_def)

lemma le_bytes_4:
  "le_bytes 4 n =
     [word_of_int (n mod 256), word_of_int (n div 256 mod 256),
      word_of_int (n div 256 div 256 mod 256), word_of_int (n div 256 div 256 div 256 mod 256)]"
proof -
  have e: "(4 :: nat) = Suc (Suc (Suc (Suc 0)))" by simp
  show ?thesis by (subst e) simp
qed

lemma le_bytes_8:
  "le_bytes 8 n = le_bytes 4 n @ le_bytes 4 (n div 256 div 256 div 256 div 256)"
proof -
  have e: "(8 :: nat) = Suc (Suc (Suc (Suc (Suc (Suc (Suc (Suc 0)))))))" by simp
  show ?thesis by (subst e) (simp add: le_bytes_4)
qed

lemma hex_digit_not_space: "is_hex_digit c \<Longrightarrow> \<not> py_isspace c"
  by (auto simp: is_hex_digit_def hex_digit_value_def py_isspace_def Let_def split: if_splits)

lemma bytes_fromhex_hex:
  "list_all is_hex_digit s \<Longrightarrow> length s = 2 * n \<Longrightarrow>
     \<exists>bs. bytes_fromhex s = Inr bs \<and> length bs = n"
proof (induction s arbitrary: n rule: bytes_fromhex.induct)
  case 1
  then show ?case by simp
next
  case (2 c)
  then show ?case by simp
next
  case (3 c d cs)
  from "3.prems" obtain m where n: "n = Suc m" and l: "length cs = 2 * m"
    by (cases n) auto
  from "3.prems" have hc: "is_hex_digit c" and hd: "is_hex_digit d" and hs: "list_all is_hex_digit cs"
    by auto
  from hc have ns: "\<not> py_isspace c" by (rule hex_digit_not_space)
  from hc hd obtain h l' where v: "hex_digit_value c = Some h" "hex_digit_value d = Some l'"
    by (auto simp: is_hex_digit_def)
  from "3.IH"(2) [OF ns refl v(1) v(2) hs l] obtain bs where "bytes_fromhex cs = Inr bs" "length bs = m"
    by blast
  with ns v n show ?case by simp
qed

lemma init_neon_tx_sig_fields:
  assumes "init_neon_tx_sig p b0 sig_hex = Inr b1"
  shows "\<exists>sig buf. bytes_fromhex (drop 2 sig_hex) = Inr sig \<and> neon_tx_sig b1 = Some sig
           \<and> treasury_pool_index_buf b1 = Some buf \<and> length buf = 4 \<and> msg b1 = msg b0"
  using assms
  by (auto simp: init_neon_tx_sig_def to_bytes_le_def Let_def length_le_bytes
      split: sum.splits if_splits)

lemma init_neon_tx_msg:
  assumes "init_neon_tx p b0 neon_tx = Inr b1"
  shows "msg b1 = Some (rlp_encode p neon_tx)"
  using init_neon_tx_sig_fields [OF assms [unfolded init_neon_tx_def]] by auto

lemma demo_sig_bytes:
  "bytes_fromhex (drop 2 demo_sig_hex) = Inr [1, 2, 3, 4, 171, 171, 171, 171, 171, 171, 171, 171, 171, 171, 171, 171, 171, 171, 171, 171, 171, 171, 171, 171, 171, 171, 171, 171, 171, 171, 171, 171]"
  by (simp add: demo_sig_hex_def hex_digit_value_def py_isspace_def)

lemma demo_builder_eq:
  "demo_builder =
     \<lparr>evm_program_id = 7, operator_account = 9, operator_neon_address = None,
      neon_account_list = [],
      neon_tx_sig = Some [1, 2, 3, 4, 171, 171, 171, 171, 171, 171, 171, 171, 171, 171, 171, 171, 171, 171, 171, 171, 171, 171, 171, 171, 171, 171, 171, 171, 171, 171, 171, 171],
      msg = Some [1, 2, 3], holder_msg = Some [1, 2, 3],
      treasury_pool_index_buf = Some [1, 0, 0, 0],
      treasury_pool_address = Some 1440, holder = Some 11\<rparr>"
  by (simp add: demo_builder_def init_neon_tx_def init_neon_tx_sig_def demo_sig_bytes
      demo_params_def new_builder_def init_iterative_def to_bytes_le_def ascii_bytes_def
      le_bytes_4)

subsection \<open>The treasury pool index\<close>

text \<open>
  Claim C3.  For every signature string whose hexadecimal part parses to the bytes
  \<open>sig\<close> and every positive \<^verbatim>\<open>treasury_pool_max\<close>, \<^verbatim>\<open>init_neon_tx_sig\<close> succeeds and
  stores: the signature bytes; as index buffer the 4 bytes that are the little-endian
  encoding of (the little-endian unsigned number in the first 4 bytes of \<open>sig\<close>, a
  32-bit quantity) modulo \<^verbatim>\<open>treasury_pool_max\<close>; and as treasury pool address the
  address that \<^verbatim>\<open>find_program_address\<close> derives from the seeds
  \<^verbatim>\<open>b'treasury_pool'\<close> and that buffer under the EVM program id.
\<close>

theorem treasury_pool_index:
  assumes m: "0 < treasury_pool_max p"
    and h: "bytes_fromhex (drop 2 sig_hex) = Inr sig"
  shows "\<exists>buf.
      init_neon_tx_sig p b sig_hex =
        Inr (b\<lparr>neon_tx_sig := Some sig,
               treasury_pool_index_buf := Some buf,
               treasury_pool_address :=
                 Some (fst (find_program_address p [ascii_bytes ''treasury_pool'', buf]
                              (evm_program_id b)))\<rparr>)
    \<and> buf = le_bytes 4 (from_bytes_le (take 4 sig) mod treasury_pool_max p)
    \<and> length buf = 4
    \<and> from_bytes_le buf = from_bytes_le (take 4 sig) mod treasury_pool_max p
    \<and> 0 \<le> from_bytes_le (take 4 sig) \<and> from_bytes_le (take 4 sig) < 2 ^ 32"
proof -
  let ?x = "from_bytes_le (take 4 sig)"
  let ?i = "?x mod treasury_pool_max p"
  have x0: "0 \<le> ?x" by (rule from_bytes_le_nonneg)
  have "?x < 256 ^ length (take 4 sig)" by (rule from_bytes_le_bound)
  also have "(256 :: int) ^ length (take 4 sig) \<le> 256 ^ 4"
    by (rule power_increasing) simp_all
  finally have x1: "?x < 256 ^ 4" .
  have i0: "0 \<le> ?i" using m by simp
  have "?i \<le> ?x" using x0 m by (simp add: zmod_le_nonneg_dividend)
  with x1 have i1: "?i < 256 ^ 4" by simp
  note t = to_bytes_le_in_range [OF i0 i1]
  have "init_neon_tx_sig p b sig_hex =
        Inr (b\<lparr>neon_tx_sig := Some sig,
               treasury_pool_index_buf := Some (le_bytes 4 ?i),
               treasury_pool_address :=
                 Some (fst (find_program_address p [ascii_bytes ''treasury_pool'', le_bytes 4 ?i]
                              (evm_program_id b)))\<rparr>)"
    using m h t by (simp add: init_neon_tx_sig_def Let_def)
  moreover have "(256 :: int) ^ 4 = 2 ^ 32" by simp
  ultimately show ?thesis using t x0 x1 by auto
qed

theorem treasury_pool_index_witness:
  "0 < treasury_pool_max demo_params
   \<and> bytes_fromhex (drop 2 demo_sig_hex) = Inr [1, 2, 3, 4, 171, 171, 171, 171, 171, 171, 171, 171, 171, 171, 171, 171, 171, 171, 171, 171, 171, 171, 171, 171, 171, 171, 171, 171, 171, 171, 171, 171]
   \<and> init_neon_tx_sig demo_params (new_builder 7 9) demo_sig_hex =
       Inr \<lparr>evm_program_id = 7, operator_account = 9, operator_neon_address = None,
            neon_account_list = [],
            neon_tx_sig = Some [1, 2, 3, 4, 171, 171, 171, 171, 171, 171, 171, 171, 171, 171, 171, 171, 171, 171, 171, 171, 171, 171, 171, 171, 171, 171, 171, 171, 171, 171, 171, 171],
            msg = None, holder_msg = None,
            treasury_pool_index_buf = Some [1, 0, 0, 0],
            treasury_pool_address = Some 1440, holder = None\<rparr>"
proof -
  have m: "0 < treasury_pool_max demo_params" by (simp add: demo_params_def)
  from treasury_pool_index [OF m demo_sig_bytes, of "new_builder 7 9"]
  obtain buf where
    r: "init_neon_tx_sig demo_params (new_builder 7 9) demo_sig_hex =
        Inr ((new_builder 7 9)\<lparr>neon_tx_sig := Some [1, 2, 3, 4, 171, 171, 171, 171, 171, 171, 171, 171, 171, 171, 171, 171, 171, 171, 171, 171, 171, 171, 171, 171, 171, 171, 171, 171, 171, 171, 171, 171],
               treasury_pool_index_buf := Some buf,
               treasury_pool_address :=
                 Some (fst (find_program_address demo_params [ascii_bytes ''treasury_pool'', buf]
                              (evm_program_id (new_builder 7 9))))\<rparr>)"
    and b: "buf = le_bytes 4 (from_bytes_le (take 4 [1, 2, 3, 4, 171, 171, 171, 171, 171, 171, 171, 171, 171, 171, 171, 171, 171, 171, 171, 171, 171, 171, 171, 171, 171, 171, 171, 171, 171, 171, 171, 171]) mod treasury_pool_max demo_params)"
    by blast
  from b have "buf = [1, 0, 0, 0]"
    by (simp add: demo_params_def le_bytes_4)
  with r m demo_sig_bytes show ?thesis
    by (simp add: demo_params_def new_builder_def ascii_bytes_def)
qed

subsection \<open>TxStepFrom* instructions\<close>

text \<open>
  Claim C4.  For a builder whose treasury pool index buffer is set and every step count
  and index that fit in 32 bits, the data of the three step instructions are: the opcode
  byte (0x20, 0x21, 0x22), the index buffer, the step count in 4 little-endian bytes and
  the index in 4 little-endian bytes; only \<^verbatim>\<open>TxStepFromData\<close> appends the builder's
  message.  The index buffer is the one \<^verbatim>\<open>init_neon_tx_sig\<close> stored, 4 bytes long,
  and the message is the RLP encoding \<^verbatim>\<open>init_neon_tx\<close> stored.
\<close>

theorem tx_step_data:
  fixes p :: "('k, 't) chain_params" and b :: "'k NeonIxBuilder"
  assumes tp: "treasury_pool_index_buf b = Some tp"
    and s0: "0 \<le> step_cnt" and s1: "step_cnt < 2 ^ 32"
    and i0: "0 \<le> index" and i1: "index < 2 ^ 32"
  shows "ix_data_of (make_tx_step_from_data_ix p b step_cnt index) =
           Inr ([0x20] @ tp @ le_bytes 4 step_cnt @ le_bytes 4 index
                  @ (case msg b of None \<Rightarrow> [] | Some rlp \<Rightarrow> rlp))
    \<and> ix_data_of (make_tx_step_from_account_ix p b step_cnt index) =
           Inr ([0x21] @ tp @ le_bytes 4 step_cnt @ le_bytes 4 index)
    \<and> ix_data_of (make_tx_step_from_account_no_chainid_ix p b step_cnt index) =
           Inr ([0x22] @ tp @ le_bytes 4 step_cnt @ le_bytes 4 index)
    \<and> length (le_bytes 4 step_cnt) = 4 \<and> from_bytes_le (le_bytes 4 step_cnt) = step_cnt
    \<and> length (le_bytes 4 index) = 4 \<and> from_bytes_le (le_bytes 4 index) = index
    \<and> (\<forall>(p0 :: ('k, 't) chain_params) b0 sig_hex b1.
          init_neon_tx_sig p0 b0 sig_hex = Inr b1
            \<and> treasury_pool_index_buf b1 = treasury_pool_index_buf b \<longrightarrow> length tp = 4)
    \<and> (\<forall>(p0 :: ('k, 't) chain_params) b0 neon_tx b1.
          init_neon_tx p0 b0 neon_tx = Inr b1 \<and> msg b1 = msg b \<longrightarrow>
            msg b = Some (rlp_encode p0 neon_tx))"
proof -
  have e: "(2 :: int) ^ 32 = 256 ^ 4" by simp
  from s1 e have "step_cnt < 256 ^ 4" by simp
  note ts = to_bytes_le_in_range [OF s0 this]
  from i1 e have "index < 256 ^ 4" by simp
  note ti = to_bytes_le_in_range [OF i0 this]
  have d: "ix_data_of (make_tx_step_from_data_ix p b step_cnt index) =
           Inr ([0x20] @ tp @ le_bytes 4 step_cnt @ le_bytes 4 index
                  @ (case msg b of None \<Rightarrow> [] | Some rlp \<Rightarrow> rlp))
    \<and> ix_data_of (make_tx_step_from_account_ix p b step_cnt index) =
           Inr ([0x21] @ tp @ le_bytes 4 step_cnt @ le_bytes 4 index)
    \<and> ix_data_of (make_tx_step_from_account_no_chainid_ix p b step_cnt index) =
           Inr ([0x22] @ tp @ le_bytes 4 step_cnt @ le_bytes 4 index)"
    using tp ts ti
    by (simp add: make_tx_step_from_data_ix_def make_tx_step_from_account_ix_def
        make_tx_step_from_account_no_chainid_ix_def u_make_tx_step_ix_def
        u_make_holder_ix_def ix_data_of_def opcode_bytes split: option.splits)
  have l: "length tp = 4"
    if "init_neon_tx_sig p0 b0 sig_hex = Inr b1"
      and "treasury_pool_index_buf b1 = treasury_pool_index_buf b"
    for p0 :: "('k, 't) chain_params" and b0 sig_hex b1
    using init_neon_tx_sig_fields [OF that(1)] that(2) tp by auto
  have m: "msg b = Some (rlp_encode p0 neon_tx)"
    if "init_neon_tx p0 b0 neon_tx = Inr b1" and "msg b1 = msg b"
    for p0 :: "('k, 't) chain_params" and b0 neon_tx b1
    using init_neon_tx_msg [OF that(1)] that(2) by simp
  from d ts ti l m show ?thesis by blast
qed

theorem tx_step_data_witness:
  "treasury_pool_index_buf demo_builder = Some [1, 0, 0, 0]
   \<and> msg demo_builder = Some [1, 2, 3]
   \<and> ix_data_of (make_tx_step_from_data_ix demo_params demo_builder 500 3) =
       Inr [0x20, 1, 0, 0, 0, 244, 1, 0, 0, 3, 0, 0, 0, 1, 2, 3]
   \<and> ix_data_of (make_tx_step_from_account_ix demo_params demo_builder 500 3) =
       Inr [0x21, 1, 0, 0, 0, 244, 1, 0, 0, 3, 0, 0, 0]
   \<and> ix_data_of (make_tx_step_from_account_no_chainid_ix demo_params demo_builder 500 3) =
       Inr [0x22, 1, 0, 0, 0, 244, 1, 0, 0, 3, 0, 0, 0]"
proof -
  have tp: "treasury_pool_index_buf demo_builder = Some [1, 0, 0, 0]"
    by (simp add: demo_builder_eq)
  have mg: "msg demo_builder = Some [1, 2, 3]"
    by (simp add: demo_builder_eq)
  have le: "le_bytes 4 500 = [244, 1, 0, 0]" "le_bytes 4 3 = [3, 0, 0, 0]"
    by (simp_all add: le_bytes_4)
  from tx_step_data [OF tp, of 500 3 demo_params, THEN conjunct1]
    tx_step_data [OF tp, of 500 3 demo_params, THEN conjunct2, THEN conjunct1]
    tx_step_data [OF tp, of 500 3 demo_params, THEN conjunct2, THEN conjunct2, THEN conjunct1]
    tp mg le show ?thesis
    by simp
qed

subsection \<open>HolderWrite instructions\<close>

text \<open>
  Claim C5.  For a builder that holds the signature bytes \<open>sig\<close> and every offset that
  fits in 64 bits and every chunk, the data of the \<^verbatim>\<open>HolderWrite\<close> instruction are
  the byte 0x26, then \<open>sig\<close>, then the offset in 8 little-endian bytes, then the chunk.
  The signature bytes are 32 when \<^verbatim>\<open>init_neon_tx_sig\<close> stored them from \<^verbatim>\<open>0x\<close> and
  64 hexadecimal digits.
\<close>

theorem holder_write_data:
  fixes b :: "'k NeonIxBuilder"
  assumes s: "neon_tx_sig b = Some sig"
    and o0: "0 \<le> offset" and o1: "offset < 2 ^ 64"
  shows "ix_data_of (make_write_ix b offset chunk) = Inr ([0x26] @ sig @ le_bytes 8 offset @ chunk)
    \<and> length (le_bytes 8 offset) = 8
    \<and> from_bytes_le (le_bytes 8 offset) = offset
    \<and> (\<forall>(p0 :: ('k, 't) chain_params) b0 sig_hex b1.
          init_neon_tx_sig p0 b0 sig_hex = Inr b1 \<and> neon_tx_sig b1 = neon_tx_sig b
            \<and> length sig_hex = 66 \<and> list_all is_hex_digit (drop 2 sig_hex) \<longrightarrow>
            length sig = 32)"
proof -
  have "(2 :: int) ^ 64 = 256 ^ 8" by simp
  with o1 have "offset < 256 ^ 8" by simp
  note t = to_bytes_le_in_range [OF o0 this]
  have d: "ix_data_of (make_write_ix b offset chunk) = Inr ([0x26] @ sig @ le_bytes 8 offset @ chunk)"
    using s t by (simp add: make_write_ix_def ix_data_of_def opcode_bytes)
  have l: "length sig = 32"
    if i: "init_neon_tx_sig p0 b0 sig_hex = Inr b1" and e: "neon_tx_sig b1 = neon_tx_sig b"
      and n: "length sig_hex = 66" and h: "list_all is_hex_digit (drop 2 sig_hex)"
    for p0 :: "('k, 't) chain_params" and b0 sig_hex b1
  proof -
    from init_neon_tx_sig_fields [OF i] e s have f: "bytes_fromhex (drop 2 sig_hex) = Inr sig"
      by auto
    from n have "length (drop 2 sig_hex) = 2 * 32" by simp
    from bytes_fromhex_hex [OF h this] f show ?thesis by auto
  qed
  from d t l show ?thesis by blast
qed

theorem holder_write_data_witness:
  "neon_tx_sig demo_builder = Some [1, 2, 3, 4, 171, 171, 171, 171, 171, 171, 171, 171, 171, 171, 171, 171, 171, 171, 171, 171, 171, 171, 171, 171, 171, 171, 171, 171, 171, 171, 171, 171]
   \<and> length [1 :: byte, 2, 3, 4, 171, 171, 171, 171, 171, 171, 171, 171, 171, 171, 171, 171, 171, 171, 171, 171, 171, 171, 171, 171, 171, 171, 171, 171, 171, 171, 171, 171] = 32
   \<and> ix_data_of (make_write_ix demo_builder 70000 [9, 9]) =
       Inr ([0x26] @ [1, 2, 3, 4, 171, 171, 171, 171, 171, 171, 171, 171, 171, 171, 171, 171, 171, 171, 171, 171, 171, 171, 171, 171, 171, 171, 171, 171, 171, 171, 171, 171] @ [112, 17, 1, 0, 0, 0, 0, 0] @ [9, 9])"
proof -
  have s: "neon_tx_sig demo_builder = Some [1, 2, 3, 4, 171, 171, 171, 171, 171, 171, 171, 171, 171, 171, 171, 171, 171, 171, 171, 171, 171, 171, 171, 171, 171, 171, 171, 171, 171, 171, 171, 171]"
    by (simp add: demo_builder_eq)
  have le: "le_bytes 8 70000 = [112, 17, 1, 0, 0, 0, 0, 0]"
    by (simp add: le_bytes_8 le_bytes_4)
  from holder_write_data [OF s, of 70000 "[9, 9]", THEN conjunct1] s le show ?thesis
    by simp
qed


section \<open>Properties of the indexer's start slot\<close>

text \<open>
  Claim C7.  When the Chain answers the two queries, the constructor stores
  \<open>max resolved first\<close>, where \<open>first\<close> is the first available block and
  \<open>resolved\<close> is what the specification words: the finalized slot for \<^verbatim>\<open>LATEST\<close>;
  for \<^verbatim>\<open>CONTINUE\<close> the last parsed slot when that is greater than 0 and the finalized
  slot otherwise; for a decimal \<open>N\<close> the smaller of \<open>N\<close> and the finalized slot, but
  not less than the last parsed slot.  A last parsed slot that is not an integer counts
  as 0.
\<close>

theorem start_slot:
  assumes f: "get_block_slot_finalized env = Inr fin"
    and a: "get_first_available_block env = Inr first"
    and r: "resolved_start_slot_spec (config_start_slot env)
              fin (case last_slot of None \<Rightarrow> 0 | Some n \<Rightarrow> n) = Some resolved"
  shows "IndexerBase_init env last_slot = Inr (max resolved first)"
  using f a r
  by (auto simp: IndexerBase_init_def u_get_start_slot_def resolved_start_slot_spec_def Let_def
      split: option.splits if_splits)

theorem start_slot_witness:
  "IndexerBase_init \<lparr>get_block_slot_finalized = Inr 900, get_first_available_block = Inr 10,
       config_start_slot = ''1000''\<rparr> (Some 950) = Inr 950
   \<and> IndexerBase_init \<lparr>get_block_slot_finalized = Inr 900, get_first_available_block = Inr 10,
       config_start_slot = ''CONTINUE''\<rparr> None = Inr 900
   \<and> IndexerBase_init \<lparr>get_block_slot_finalized = Inr 900, get_first_available_block = Inr 2000,
       config_start_slot = ''LATEST''\<rparr> (Some 950) = Inr 2000
   \<and> IndexerBase_init \<lparr>get_block_slot_finalized = Inr 900, get_first_available_block = Inr 10,
       config_start_slot = ''800''\<rparr> None = Inr 800"
proof -
  have p8: "py_int ''800'' = Some 800"
    by (simp add: py_int_def py_int_isspace_def py_isspace_def is_digit_def)
  have r4: "resolved_start_slot_spec ''800'' 900 0 = Some 800"
    by (simp add: resolved_start_slot_spec_def p8)
  note t4 = start_slot [of "\<lparr>get_block_slot_finalized = Inr 900, get_first_available_block = Inr 10,
       config_start_slot = ''800''\<rparr>" 900 10 None 800]
  have p: "py_int ''1000'' = Some 1000"
    by (simp add: py_int_def py_int_isspace_def py_isspace_def is_digit_def)
  have r1: "resolved_start_slot_spec ''1000'' 900 950 = Some 950"
    by (simp add: resolved_start_slot_spec_def p)
  have r2: "resolved_start_slot_spec ''CONTINUE'' 900 0 = Some 900"
    by (simp add: resolved_start_slot_spec_def)
  have r3: "resolved_start_slot_spec ''LATEST'' 900 950 = Some 900"
    by (simp add: resolved_start_slot_spec_def)
  note t1 = start_slot [of "\<lparr>get_block_slot_finalized = Inr 900, get_first_available_block = Inr 10,
       config_start_slot = ''1000''\<rparr>" 900 10 "Some 950" 950]
  note t2 = start_slot [of "\<lparr>get_block_slot_finalized = Inr 900, get_first_available_block = Inr 10,
       config_start_slot = ''CONTINUE''\<rparr>" 900 10 None 900]
  note t3 = start_slot [of "\<lparr>get_block_slot_finalized = Inr 900, get_first_available_block = Inr 2000,
       config_start_slot = ''LATEST''\<rparr>" 900 2000 "Some 950" 900]
  from t1 t2 t3 t4 r1 r2 r3 r4 show ?thesis by simp
qed


section \<open>Properties of the RPC worker\<close>

subsection \<open>Characters, hexadecimal digits and checksums\<close>

lemma hex_digit_not_x: "is_hex_digit c \<Longrightarrow> c \<noteq> CHR ''x'' \<and> c \<noteq> CHR ''X''"
  by (auto simp: is_hex_digit_def hex_digit_value_def Let_def split: if_splits)

lemma py_lower_char_idem: "py_lower_char (py_lower_char c) = py_lower_char c"
proof -
  have "(of_char c :: nat) < 256" by simp
  then show ?thesis
    by (auto simp: py_lower_char_def Let_def)
qed

lemma py_lower_upper_char: "py_lower_char (py_upper_char c) = py_lower_char c"
proof -
  have "(of_char c :: nat) < 256" by simp
  then show ?thesis
    by (auto simp: py_lower_char_def py_upper_char_def Let_def)
qed

lemma is_hex_digit_lower: "is_hex_digit (py_lower_char c) = is_hex_digit c"
proof -
  have "(of_char c :: nat) < 256" by simp
  then show ?thesis
    by (auto simp: py_lower_char_def is_hex_digit_def hex_digit_value_def Let_def)
qed

lemma py_lower_idem: "py_lower (py_lower s) = py_lower s"
  by (simp add: py_lower_def py_lower_char_idem)

lemma length_checksum_encode: "length (checksum_encode d) = length d"
  by (simp add: checksum_encode_def Let_def)

lemma py_lower_checksum_encode: "py_lower (checksum_encode d) = py_lower d"
proof -
  have "map py_lower_char (map (\<lambda>(i, c). if P i then py_upper_char c else c) (zip is d))
          = map py_lower_char (map snd (zip is d))" for P and "is" :: "nat list"
    by (induction "is" arbitrary: d) (auto simp: py_lower_upper_char split: list.splits)
  then show ?thesis
    by (simp add: checksum_encode_def Let_def py_lower_def map_snd_zip del: map_map)
qed

lemma drop_py_lower: "drop n (py_lower s) = py_lower (drop n s)"
  by (simp add: py_lower_def drop_map)

lemma hex_no_prefix:
  assumes "list_all is_hex_digit d"
  shows "remove_0x_prefix d = d"
proof (cases d)
  case Nil
  then show ?thesis by (simp add: remove_0x_prefix_def)
next
  case (Cons c cs)
  show ?thesis
  proof (cases cs)
    case Nil
    with Cons show ?thesis by (simp add: remove_0x_prefix_def)
  next
    case (Cons c' cs')
    with assms \<open>d = c # cs\<close> have "is_hex_digit c'" by simp
    then have "c' \<noteq> CHR ''x'' \<and> c' \<noteq> CHR ''X''" by (rule hex_digit_not_x)
    with Cons \<open>d = c # cs\<close> show ?thesis by (simp add: remove_0x_prefix_def)
  qed
qed

lemma prefixed_not_fromhex:
  assumes "take 2 d = ''0x'' \<or> take 2 d = ''0X''"
  shows "bytes_fromhex d = Inl ValueError"
proof -
  from assms obtain c rest where d: "d = CHR ''0'' # c # rest" and c: "c = CHR ''x'' \<or> c = CHR ''X''"
    by (cases d; cases "tl d") auto
  have "\<not> py_isspace CHR ''0''" by (simp add: py_isspace_def)
  moreover have "hex_digit_value c = None" using c by (auto simp: hex_digit_value_def)
  ultimately show ?thesis using d by (simp split: option.splits)
qed

lemma to_checksum_address_lower:
  assumes l: "py_lower d = d"
  shows "to_checksum_address d =
     (if take 2 d = ''0x'' then to_checksum_address d
      else if list_all is_hex_digit d \<and> length d = 40 then Inr (''0x'' @ checksum_encode d)
      else Inl ValueError)"
proof (cases "take 2 d = ''0x''")
  case True
  then show ?thesis by simp
next
  case False
  have "take 2 d \<noteq> ''0X''"
  proof
    assume "take 2 d = ''0X''"
    then have "take 2 (py_lower d) = py_lower ''0X''"
      by (simp add: py_lower_def take_map)
    moreover have "py_lower ''0X'' = ''0x''" by code_simp
    ultimately have "take 2 d = ''0x''" using l by simp
    with False show False by simp
  qed
  with False have "remove_0x_prefix d = d" by (simp add: remove_0x_prefix_def)
  with False l show ?thesis by (simp add: to_checksum_address_def)
qed

lemma normalize_address_eq:
  "u_normalize_address raw ty =
     (let a = py_lower (py_strip raw) in
      if take 2 a = ''0x'' \<and> length (drop 2 a) = 40 \<and> list_all is_hex_digit (drop 2 a)
      then Inr (''0x'' @ checksum_encode (drop 2 a))
      else Inl (InvalidParamError (''bad '' @ ty @ '': '' @ raw)))"
proof -
  let ?a = "py_lower (py_strip raw)"
  let ?d = "drop 2 ?a"
  have ld: "py_lower ?d = ?d"
    by (simp add: drop_py_lower [symmetric] py_lower_idem)
  show ?thesis
  proof (cases "take 2 ?a = ''0x''")
    case False
    then show ?thesis by (simp add: u_normalize_address_def Let_def)
  next
    case True
    show ?thesis
    proof (cases "length ?d = 40 \<and> list_all is_hex_digit ?d")
      case good: True
      then obtain bs where b: "bytes_fromhex ?d = Inr bs" "length bs = 20"
        using bytes_fromhex_hex [of ?d 20] by auto
      from good have "remove_0x_prefix ?d = ?d" by (simp add: hex_no_prefix)
      with good ld have "to_checksum_address ?d = Inr (''0x'' @ checksum_encode ?d)"
        by (simp add: to_checksum_address_def)
      with True good b show ?thesis by (simp add: u_normalize_address_def Let_def)
    next
      case bad: False
      have "\<exists>e. (case bytes_fromhex ?d of
                 Inl e \<Rightarrow> Inl e
               | Inr bin_address \<Rightarrow>
                   if length bin_address \<noteq> 20 then Inl AssertionError
                   else to_checksum_address ?d) = (Inl e :: error + string)"
      proof (cases "bytes_fromhex ?d")
        case (Inl e)
        then show ?thesis by simp
      next
        case (Inr bs)
        then have np: "take 2 ?d \<noteq> ''0x''"
          using prefixed_not_fromhex [of ?d] by auto
        have "to_checksum_address ?d = Inl ValueError"
          using to_checksum_address_lower [OF ld] np bad by auto
        with Inr show ?thesis by simp
      qed
      then obtain e where "(case bytes_fromhex ?d of
                 Inl e \<Rightarrow> Inl e
               | Inr bin_address \<Rightarrow>
                   if length bin_address \<noteq> 20 then Inl AssertionError
                   else to_checksum_address ?d) = (Inl e :: error + string)" ..
      with True bad show ?thesis by (simp add: u_normalize_address_def Let_def)
    qed
  qed
qed

lemma normalize_address_result:
  assumes "u_normalize_address raw ty = Inr r"
  shows "py_lower r = py_lower (py_strip raw) \<and> length r = 42"
proof -
  let ?a = "py_lower (py_strip raw)"
  from assms have t: "take 2 ?a = ''0x''" and l: "length (drop 2 ?a) = 40"
    and r: "r = ''0x'' @ checksum_encode (drop 2 ?a)"
    unfolding normalize_address_eq Let_def by (auto split: if_splits)
  have "py_lower r = py_lower ''0x'' @ py_lower (checksum_encode (drop 2 ?a))"
    using r by (simp add: py_lower_def)
  also have "py_lower ''0x'' = ''0x''" by code_simp
  also have "py_lower (checksum_encode (drop 2 ?a)) = drop 2 ?a"
    by (simp add: py_lower_checksum_encode drop_py_lower [symmetric] py_lower_idem)
  also have "''0x'' @ drop 2 ?a = ?a" using t append_take_drop_id [of 2 ?a] by simp
  finally have "py_lower r = ?a" .
  moreover have "length r = 42" using r l by (simp add: length_checksum_encode)
  ultimately show ?thesis by simp
qed

subsection \<open>A checksum evaluated\<close>

text \<open>The first test vector of EIP-55, through the 24 rounds of the permutation.\<close>

lemma demo_checksum:
  "checksum_encode ''5aaeb6053f3e94c9b9a09f33669435e7ef1beaed''
     = ''5aAeb6053F3E94C9b9A09f33669435E7Ef1BeAed''"
  by code_simp

lemma demo_lower_strip:
  "py_lower (py_strip ''0x5aaeb6053f3e94c9b9a09f33669435e7ef1beaed'')
     = ''0x5aaeb6053f3e94c9b9a09f33669435e7ef1beaed''"
  "py_lower ''0x5aAeb6053F3E94C9b9A09f33669435E7Ef1BeAed''
     = ''0x5aaeb6053f3e94c9b9a09f33669435e7ef1beaed''"
  "list_all is_hex_digit ''5aaeb6053f3e94c9b9a09f33669435e7ef1beaed''"
  by code_simp+

lemma demo_address_normalized:
  "u_normalize_address demo_address ''address''
     = Inr ''0x5aAeb6053F3E94C9b9A09f33669435E7Ef1BeAed''"
  unfolding normalize_address_eq demo_address_def
  by (simp add: demo_lower_strip demo_checksum is_hex_digit_def hex_digit_value_def)

subsection \<open>Address normalisation\<close>

text \<open>
  The claim C9 as the specification words it fails on the result: for a well-formed
  address the function does not return the lower-case string but the EIP-55 form of
  \<^verbatim>\<open>to_checksum_address\<close>, in which some letters are in upper case.
\<close>

theorem normalize_address_counterexample:
  "u_normalize_address ''0x5aaeb6053f3e94c9b9a09f33669435e7ef1beaed'' ''address''
     = Inr ''0x5aAeb6053F3E94C9b9A09f33669435E7Ef1BeAed''"
  using demo_address_normalized by (simp add: demo_address_def)

text \<open>
  Claim C9, amended.  \<^verbatim>\<open>_normalize_address\<close> trims the surrounding whitespace (the
  characters of \<^verbatim>\<open>str.isspace\<close>, among them U+0085 and U+00A0) and lower-cases the
  string; it accepts the result when that is \<^verbatim>\<open>0x\<close> followed by
  exactly 40 hexadecimal digits (20 bytes), and then yields \<^verbatim>\<open>0x\<close> followed by these
  digits in the letter case of the EIP-55 checksum: 42 characters whose lower-case form
  is the trimmed, lower-cased input.  Every other input is rejected with an
  \<^verbatim>\<open>InvalidParamError\<close> whose message names the kind of address and quotes the raw
  input.
\<close>

theorem normalize_address:
  "u_normalize_address raw ty =
     (let a = py_lower (py_strip raw) in
      if take 2 a = ''0x'' \<and> length (drop 2 a) = 40 \<and> list_all is_hex_digit (drop 2 a)
      then Inr (''0x'' @ checksum_encode (drop 2 a))
      else Inl (InvalidParamError (''bad '' @ ty @ '': '' @ raw)))
   \<and> (\<forall>r. u_normalize_address raw ty = Inr r \<longrightarrow>
          py_lower r = py_lower (py_strip raw) \<and> length r = 42)"
  using normalize_address_eq [of raw ty] normalize_address_result [of raw ty] by blast

theorem normalize_address_witness:
  "u_normalize_address ''0x5aaeb6053f3e94c9b9a09f33669435e7ef1beaed'' ''address''
     = Inr ''0x5aAeb6053F3E94C9b9A09f33669435E7Ef1BeAed''
   \<and> py_lower ''0x5aAeb6053F3E94C9b9A09f33669435E7Ef1BeAed''
     = py_lower (py_strip ''0x5aaeb6053f3e94c9b9a09f33669435e7ef1beaed'')
   \<and> length ''0x5aAeb6053F3E94C9b9A09f33669435E7Ef1BeAed'' = 42
   \<and> u_normalize_address ''0x5aa'' ''to-address''
     = Inl (InvalidParamError ''bad to-address: 0x5aa'')
   \<and> u_normalize_address
       (CHR 0xA0 # ''0x5AAEB6053F3E94C9B9A09F33669435E7EF1BEAED'' @ [CHR 0x85, CHR 0x1F])
       ''address''
     = Inr ''0x5aAeb6053F3E94C9b9A09f33669435E7Ef1BeAed''"
proof -
  note t = normalize_address [of "''0x5aaeb6053f3e94c9b9a09f33669435e7ef1beaed''" "''address''"]
  have n: "u_normalize_address ''0x5aaeb6053f3e94c9b9a09f33669435e7ef1beaed'' ''address''
     = Inr ''0x5aAeb6053F3E94C9b9A09f33669435E7Ef1BeAed''"
    using t [THEN conjunct1]
    by (simp add: demo_lower_strip demo_checksum is_hex_digit_def hex_digit_value_def)
  have r: "py_lower ''0x5aAeb6053F3E94C9b9A09f33669435E7Ef1BeAed''
       = py_lower (py_strip ''0x5aaeb6053f3e94c9b9a09f33669435e7ef1beaed'')
     \<and> length ''0x5aAeb6053F3E94C9b9A09f33669435E7Ef1BeAed'' = 42"
    using t [THEN conjunct2, rule_format, OF n] .
  have s: "py_lower (py_strip ''0x5aa'') = ''0x5aa''" by code_simp
  have b: "u_normalize_address ''0x5aa'' ''to-address''
     = Inl (InvalidParamError ''bad to-address: 0x5aa'')"
    using normalize_address [of "''0x5aa''" "''to-address''", THEN conjunct1]
    by (simp add: s)
  have w: "py_lower (py_strip
        (CHR 0xA0 # ''0x5AAEB6053F3E94C9B9A09F33669435E7EF1BEAED'' @ [CHR 0x85, CHR 0x1F]))
      = ''0x5aaeb6053f3e94c9b9a09f33669435e7ef1beaed''"
    by code_simp
  have u: "u_normalize_address
       (CHR 0xA0 # ''0x5AAEB6053F3E94C9B9A09F33669435E7EF1BEAED'' @ [CHR 0x85, CHR 0x1F])
       ''address''
     = Inr ''0x5aAeb6053F3E94C9b9A09f33669435E7Ef1BeAed''"
    using normalize_address [of
        "CHR 0xA0 # ''0x5AAEB6053F3E94C9B9A09F33669435E7EF1BEAED'' @ [CHR 0x85, CHR 0x1F]"
        "''address''", THEN conjunct1]
    unfolding w
    by (simp add: demo_checksum is_hex_digit_def hex_digit_value_def)
  from n r b u show ?thesis by blast
qed

subsection \<open>eth\_getTransactionCount\<close>

lemma py_hex_0: "py_hex 0 = ''0x0''"
  by code_simp

lemma transaction_count_unfold:
  assumes v: "u_validate_block_tag tag = Inr ()"
    and a: "u_normalize_address account ''address'' = Inr checksum"
  shows "eth_getTransactionCount env account tag =
     (case tx_count_body env (py_lower checksum) tag of
        Inl e \<Rightarrow> Inr ''0x0''
      | Inr r \<Rightarrow> Inr r)"
  using v a by (simp add: eth_getTransactionCount_def py_hex_0 split: sum.splits)



text \<open>
  Claim C10.  For an account and a tag that pass the address normalisation and the
  block-tag validation, \<^verbatim>\<open>eth_getTransactionCount\<close> returns a string and never
  raises; when the Chain query fails, or the mempool query that the tag calls for, the
  string is \<^verbatim>\<open>0x0\<close>.
\<close>

theorem transaction_count_never_raises:
  assumes v: "u_validate_block_tag tag = Inr ()"
    and a: "u_normalize_address account ''address'' = Inr checksum"
  shows "(\<exists>r. eth_getTransactionCount env account tag = Inr r)
       \<and> ((\<exists>e. tx_count_body env (py_lower checksum) tag = Inl e) \<longrightarrow>
            eth_getTransactionCount env account tag = Inr ''0x0'')
       \<and> ((\<forall>c. \<exists>e. solana_get_state_tx_cnt env (py_lower checksum) c = Inl e) \<longrightarrow>
            eth_getTransactionCount env account tag = Inr ''0x0'')
       \<and> (tag = TagStr ''pending'' \<and> (\<exists>e. get_pending_tx_nonce env (py_lower checksum) = Inl e) \<longrightarrow>
            eth_getTransactionCount env account tag = Inr ''0x0'')
       \<and> (tag = TagStr ''latest'' \<and> (\<exists>e. get_mempool_tx_nonce env (py_lower checksum) = Inl e) \<longrightarrow>
            eth_getTransactionCount env account tag = Inr ''0x0'')"
proof (intro conjI impI)
  show "\<exists>r. eth_getTransactionCount env account tag = Inr r"
    unfolding transaction_count_unfold [OF v a] by (simp split: sum.splits)
next
  assume "\<exists>e. tx_count_body env (py_lower checksum) tag = Inl e"
  then show "eth_getTransactionCount env account tag = Inr ''0x0''"
    unfolding transaction_count_unfold [OF v a] by auto
next
  assume f: "\<forall>c. \<exists>e. solana_get_state_tx_cnt env (py_lower checksum) c = Inl e"
  have "\<exists>e. tx_count_body env (py_lower checksum) tag = Inl e"
  proof -
    have "\<exists>e. (case solana_get_state_tx_cnt env (py_lower checksum) c of
             Inl e \<Rightarrow> Inl e
           | Inr tx_cnt \<Rightarrow> Inr (py_hex (max tx_cnt k))) = (Inl e :: error + string)" for c k
      using f [rule_format, of c] by auto
    then show ?thesis
      by (auto simp: tx_count_body_def Let_def split: sum.splits)
  qed
  then show "eth_getTransactionCount env account tag = Inr ''0x0''"
    unfolding transaction_count_unfold [OF v a] by auto
next
  assume "tag = TagStr ''pending'' \<and> (\<exists>e. get_pending_tx_nonce env (py_lower checksum) = Inl e)"
  then have "\<exists>e. tx_count_body env (py_lower checksum) tag = Inl e"
    by (auto simp: tx_count_body_def)
  then show "eth_getTransactionCount env account tag = Inr ''0x0''"
    unfolding transaction_count_unfold [OF v a] by auto
next
  assume "tag = TagStr ''latest'' \<and> (\<exists>e. get_mempool_tx_nonce env (py_lower checksum) = Inl e)"
  then have "\<exists>e. tx_count_body env (py_lower checksum) tag = Inl e"
    by (auto simp: tx_count_body_def)
  then show "eth_getTransactionCount env account tag = Inr ''0x0''"
    unfolding transaction_count_unfold [OF v a] by auto
qed

theorem transaction_count_never_raises_witness:
  "u_validate_block_tag (TagStr ''latest'') = Inr ()
   \<and> u_normalize_address demo_address ''address'' = Inr ''0x5aAeb6053F3E94C9b9A09f33669435E7Ef1BeAed''
   \<and> get_mempool_tx_nonce failing_rpc (py_lower ''0x5aAeb6053F3E94C9b9A09f33669435E7Ef1BeAed'')
        = Inl (OtherError ''mempool'')
   \<and> eth_getTransactionCount failing_rpc demo_address (TagStr ''latest'') = Inr ''0x0''
   \<and> eth_getTransactionCount failing_rpc demo_address (TagInt 12) = Inr ''0x0''"
proof -
  have v: "u_validate_block_tag (TagStr ''latest'') = Inr ()"
    "u_validate_block_tag (TagInt 12) = Inr ()"
    by (simp_all add: u_validate_block_tag_def)
  note a = demo_address_normalized
  have m: "get_mempool_tx_nonce failing_rpc (py_lower ''0x5aAeb6053F3E94C9b9A09f33669435E7Ef1BeAed'')
        = Inl (OtherError ''mempool'')"
    by (simp add: failing_rpc_def)
  have s: "\<forall>c. \<exists>e. solana_get_state_tx_cnt failing_rpc (py_lower ''0x5aAeb6053F3E94C9b9A09f33669435E7Ef1BeAed'') c = Inl e"
    by (simp add: failing_rpc_def)
  have "eth_getTransactionCount failing_rpc demo_address (TagStr ''latest'') = Inr ''0x0''"
    using transaction_count_never_raises [OF v(1) a, of failing_rpc] m by blast
  moreover have "eth_getTransactionCount failing_rpc demo_address (TagInt 12) = Inr ''0x0''"
    using transaction_count_never_raises [OF v(2) a, of failing_rpc] s by blast
  ultimately show ?thesis using v a m by simp
qed

end
